theory Spec2Isabelle
  imports Main "HOL-Library.Sublist"
begin

section \<open>JavaScript strings\<close>

text \<open>
  The content script (\<^verbatim>\<open>src/content.js\<close>) works on JavaScript strings, which are
  sequences of UTF-16 code units. A code unit is modelled as a natural number and a
  string as the list of its code units, so that \<^verbatim>\<open>.length\<close>, the character classes
  of regular expressions and the non-ASCII literals of the source (the en dash
  U+2013 of the pagination pattern, the accented letters of the document types)
  are what they are in the program. \<open>js\<close> reads an ASCII literal.
\<close>

type_synonym jsstring = "nat list"

definition js :: "string \<Rightarrow> jsstring" where
  "js s = map of_char s"

definition cu :: "char \<Rightarrow> nat" where
  "cu c = of_char c"

text \<open>\<^verbatim>\<open>Array.prototype.join(sep)\<close> on an array of strings.\<close>

fun join :: "jsstring \<Rightarrow> jsstring list \<Rightarrow> jsstring" where
  "join sep [] = []"
| "join sep [x] = x"
| "join sep (x # y # ys) = x @ sep @ join sep (y # ys)"

text \<open>
  \<^verbatim>\<open>str.replace(/c/g, r)\<close> for a pattern that matches the single code unit \<open>c\<close>
  and a replacement text \<open>r\<close> without replacement patterns: every occurrence of
  \<open>c\<close>, left to right, becomes \<open>r\<close>.
\<close>

definition replace_unit :: "nat \<Rightarrow> jsstring \<Rightarrow> jsstring \<Rightarrow> jsstring" where
  "replace_unit c r s = concat (map (\<lambda>x. if x = c then r else [x]) s)"

text \<open>
  \<^verbatim>\<open>str.replace(/[...]/g, r)\<close> for a pattern that is one character class.
\<close>

definition replace_class :: "(nat \<Rightarrow> bool) \<Rightarrow> jsstring \<Rightarrow> jsstring \<Rightarrow> jsstring" where
  "replace_class cls r s = concat (map (\<lambda>x. if cls x then r else [x]) s)"

text \<open>
  The character classes of the source's patterns. \<^verbatim>\<open>\d\<close> is the ten ASCII digits.
  \<^verbatim>\<open>\s\<close>, and the white space \<^verbatim>\<open>parseInt\<close> skips, is ECMAScript's WhiteSpace and
  LineTerminator: TAB, LF, VT, FF, CR, SP, NBSP, U+1680, U+2000 to U+200A, U+2028,
  U+2029, U+202F, U+205F, U+3000 and U+FEFF.
\<close>

definition is_digit :: "nat \<Rightarrow> bool" where
  "is_digit c = (48 \<le> c \<and> c \<le> 57)"

definition is_space :: "nat \<Rightarrow> bool" where
  "is_space c = (c \<in> {9, 10, 11, 12, 13, 32, 160, 5760, 8232, 8233, 8239, 8287, 12288, 65279}
     \<or> (8192 \<le> c \<and> c \<le> 8202))"

definition is_lower :: "nat \<Rightarrow> bool" where
  "is_lower c = (97 \<le> c \<and> c \<le> 122)"

definition is_upper :: "nat \<Rightarrow> bool" where
  "is_upper c = (65 \<le> c \<and> c \<le> 90)"

section \<open>Numbers and parseInt\<close>

text \<open>
  A JavaScript number that the program obtains from \<^verbatim>\<open>parseInt\<close> is modelled as
  \<open>int option\<close>: \<open>None\<close> is NaN, \<open>Some n\<close> the integer \<open>n\<close>. The program's numbers are
  IEEE doubles, which hold every integer up to \<open>2 ^ 53\<close> in absolute value exactly; a longer
  digit string is rounded by the program and is read exactly here.

  \<^verbatim>\<open>parseInt(string, 10)\<close> (ECMAScript 19.2.5): skip leading white space, read an
  optional sign, take the longest run of decimal digits; no digit gives NaN; whatever
  follows the digits is ignored. The argument \<^verbatim>\<open>null\<close> is first converted to the
  string \<^verbatim>\<open>"null"\<close>.
\<close>

definition digit_value :: "nat \<Rightarrow> int" where
  "digit_value c = int c - 48"

definition digits_value :: "jsstring \<Rightarrow> int" where
  "digits_value z = foldl (\<lambda>acc c. acc * 10 + digit_value c) 0 z"

definition ToString_nullable :: "jsstring option \<Rightarrow> jsstring" where
  "ToString_nullable v = (case v of None \<Rightarrow> js ''null'' | Some s \<Rightarrow> s)"

definition parseInt :: "jsstring \<Rightarrow> int option" where
  "parseInt inputString =
     (let S = dropWhile is_space inputString;
          sign = (case S of c # _ \<Rightarrow> if c = cu CHR ''-'' then - 1 else 1 | [] \<Rightarrow> (1::int));
          S = (case S of c # rest \<Rightarrow> if c = cu CHR ''+'' \<or> c = cu CHR ''-'' then rest else S
               | [] \<Rightarrow> S);
          Z = takeWhile is_digit S
      in if Z = [] then None else Some (sign * digits_value Z))"

text \<open>\<^verbatim>\<open>a < b\<close> on numbers: false when either side is NaN.\<close>

definition number_less :: "int option \<Rightarrow> int option \<Rightarrow> bool" where
  "number_less a b = (case (a, b) of (Some x, Some y) \<Rightarrow> x < y | _ \<Rightarrow> False)"

section \<open>Regular expressions\<close>

text \<open>
  The patterns the source matches with \<^verbatim>\<open>String.prototype.match\<close> (no flag) are
  sequences of pieces, each a single character, a class, or a greedy repetition of one:
  \<^verbatim>\<open>/(\d+)\u2013(\d+)\s*de\s*(\d+)/\<close>, \<^verbatim>\<open>/de\s*(\d+)/\<close> and \<^verbatim>\<open>/(\d{4})/\<close>
  (the source writes the en dash U+2013 itself where \<^verbatim>\<open>\u2013\<close> stands here).
  The matcher is ECMAScript's backtracking one: \<open>seq_match\<close> lists every way the
  pieces match at the start of the text, in the order backtracking tries them (a
  greedy repetition takes the longest run first); \<open>exec\<close> tries the start positions
  left to right and returns the first way of the first position that matches, as the
  texts matched by the pieces, so that a capture group is the text of its piece.
\<close>

datatype atom = Unit nat | Digit | Space

fun atom_ok :: "atom \<Rightarrow> nat \<Rightarrow> bool" where
  "atom_ok (Unit u) c = (c = u)"
| "atom_ok Digit c = is_digit c"
| "atom_ok Space c = is_space c"

datatype piece = One atom | Star atom | Plus atom | Exactly nat atom

fun pmatch :: "piece \<Rightarrow> jsstring \<Rightarrow> (jsstring \<times> jsstring) list" where
  "pmatch (One a) s = (case s of c # r \<Rightarrow> if atom_ok a c then [([c], r)] else [] | [] \<Rightarrow> [])"
| "pmatch (Star a) s =
     map (\<lambda>k. (take k s, drop k s)) (rev [0 ..< Suc (length (takeWhile (atom_ok a) s))])"
| "pmatch (Plus a) s =
     map (\<lambda>k. (take k s, drop k s)) (rev [1 ..< Suc (length (takeWhile (atom_ok a) s))])"
| "pmatch (Exactly n a) s =
     (if n \<le> length (takeWhile (atom_ok a) s) then [(take n s, drop n s)] else [])"

fun seq_match :: "piece list \<Rightarrow> jsstring \<Rightarrow> (jsstring list \<times> jsstring) list" where
  "seq_match [] s = [([], s)]"
| "seq_match (p # ps) s =
     concat (map (\<lambda>(m, r). map (\<lambda>(ms, r'). (m # ms, r')) (seq_match ps r)) (pmatch p s))"

definition first_match :: "piece list \<Rightarrow> jsstring \<Rightarrow> jsstring list option" where
  "first_match ps s = (case seq_match ps s of [] \<Rightarrow> None | (ms, _) # _ \<Rightarrow> Some ms)"

fun exec :: "piece list \<Rightarrow> jsstring \<Rightarrow> jsstring list option" where
  "exec ps [] = first_match ps []"
| "exec ps (c # s) =
     (case first_match ps (c # s) of Some ms \<Rightarrow> Some ms | None \<Rightarrow> exec ps s)"

section \<open>The page the content script runs on\<close>

text \<open>
  What PageNavigator reads from the browser: the query
  parameters \<^verbatim>\<open>page\<close> and \<^verbatim>\<open>q\<close> of \<^verbatim>\<open>location.search\<close> as
  \<^verbatim>\<open>URLSearchParams.get\<close> returns them (\<open>None\<close> is \<^verbatim>\<open>null\<close>), whether
  \<^verbatim>\<open>SELECTORS.nextButton\<close> selects an element (an enabled next button), the
  \<^verbatim>\<open>textContent\<close> of the \<^verbatim>\<open>SELECTORS.pageInfo\<close> element when there is one.
\<close>

record location =
  param_page :: "jsstring option"
  param_q :: "jsstring option"

record pagination =
  nextButton :: bool
  pageInfo :: "jsstring option"

section \<open>PageNavigator\<close>

text \<open>
  \<^verbatim>\<open>
  static getCurrentPage() {
    const params = new URLSearchParams(location.search);
    return parseInt(params.get('page'), 10) || 1;
  }
  \<close>
  \<^verbatim>\<open>x || 1\<close> is 1 when \<open>x\<close> is NaN or zero, and \<open>x\<close> otherwise.
\<close>

definition getCurrentPage :: "location \<Rightarrow> int" where
  "getCurrentPage loc =
     (case parseInt (ToString_nullable (param_page loc)) of
        None \<Rightarrow> 1
      | Some n \<Rightarrow> if n = 0 then 1 else n)"

text \<open>
  \<^verbatim>\<open>
  static hasNextPage() {
    if ($(SELECTORS.nextButton)) return true;
    const info = $(SELECTORS.pageInfo);
    if (info) {
      const match = info.textContent.match(/(\d+)\u2013(\d+)\s*de\s*(\d+)/);
      return match && parseInt(match[2], 10) < parseInt(match[3], 10);
    }
    return false;
  }
  \<close>
  The result is \<^verbatim>\<open>true\<close>, \<^verbatim>\<open>false\<close> or, when the text does not match,
  \<^verbatim>\<open>null\<close>: \<open>Some True\<close>, \<open>Some False\<close> and \<open>None\<close>. The pieces of the pattern
  are numbered from 0, so the groups 1, 2 and 3 are the pieces 0, 2 and 7.
\<close>

definition en_dash :: nat where
  "en_dash = 8211"

definition range_pattern :: "piece list" where
  "range_pattern = [Plus Digit, One (Unit en_dash), Plus Digit, Star Space,
     One (Unit (cu CHR ''d'')), One (Unit (cu CHR ''e'')), Star Space, Plus Digit]"

definition hasNextPage :: "pagination \<Rightarrow> bool option" where
  "hasNextPage doc =
     (if nextButton doc then Some True
      else case pageInfo doc of
        Some textContent \<Rightarrow>
          (case exec range_pattern textContent of
             None \<Rightarrow> None
           | Some match \<Rightarrow> Some (number_less (parseInt (match ! 2)) (parseInt (match ! 7))))
      | None \<Rightarrow> Some False)"

text \<open>Truthiness of what hasNextPage returns.\<close>

definition truthy :: "bool option \<Rightarrow> bool" where
  "truthy v = (v = Some True)"

text \<open>
  \<^verbatim>\<open>
  static getTotalArticlesEstimate() {
    const info = $(SELECTORS.pageInfo);
    if (info) {
      const match = info.textContent.match(/de\s*(\d+)/);
      return match ? parseInt(match[1], 10) : 0;
    }
    return 0;
  }
  \<close>
  The group is never empty, so \<^verbatim>\<open>parseInt\<close> never yields NaN here.
\<close>

definition total_pattern :: "piece list" where
  "total_pattern = [One (Unit (cu CHR ''d'')), One (Unit (cu CHR ''e'')), Star Space, Plus Digit]"

definition getTotalArticlesEstimate :: "pagination \<Rightarrow> int" where
  "getTotalArticlesEstimate doc =
     (case pageInfo doc of
        Some textContent \<Rightarrow>
          (case exec total_pattern textContent of
             Some match \<Rightarrow> (case parseInt (match ! 3) of Some n \<Rightarrow> n | None \<Rightarrow> 0)
           | None \<Rightarrow> 0)
      | None \<Rightarrow> 0)"

section \<open>What the patterns describe\<close>

text \<open>
  The texts a piece matches, stated without reference to the matcher: one character, a
  run (possibly empty for \<^verbatim>\<open>*\<close>, not empty for \<^verbatim>\<open>+\<close>, of exactly \<open>n\<close> characters
  for \<^verbatim>\<open>{n}\<close>) of characters of the class. A text matches a pattern when it splits
  into one such text for each piece.
\<close>

fun piece_lang :: "piece \<Rightarrow> jsstring \<Rightarrow> bool" where
  "piece_lang (One a) m = (length m = 1 \<and> list_all (atom_ok a) m)"
| "piece_lang (Star a) m = list_all (atom_ok a) m"
| "piece_lang (Plus a) m = (m \<noteq> [] \<and> list_all (atom_ok a) m)"
| "piece_lang (Exactly n a) m = (length m = n \<and> list_all (atom_ok a) m)"



section \<open>FormatConverter.escapeBibTeX\<close>

text \<open>
  \<^verbatim>\<open>
  static escapeBibTeX(str) {
    return str
      .replace(/\\/g, '\\\\')
      .replace(/\{/g, '\\{')
      .replace(/\}/g, '\\}')
      .replace(/\$/g, '\\$')
      .replace(/&/g, '\\&')
      .replace(/%/g, '\\%')
      .replace(/#/g, '\\#');
  }
  \<close>
  The replacement \<^verbatim>\<open>'\\$'\<close> is a backslash followed by a dollar sign that ends the
  replacement text, so it is not a replacement pattern and stands for itself.
\<close>

definition backslash :: nat where
  "backslash = cu (CHR 0x5C)"

definition escapeBibTeX :: "jsstring \<Rightarrow> jsstring" where
  "escapeBibTeX str =
     replace_unit (cu CHR ''#'') [backslash, cu CHR ''#'']
    (replace_unit (cu CHR ''%'') [backslash, cu CHR ''%'']
    (replace_unit (cu CHR ''&'') [backslash, cu CHR ''&'']
    (replace_unit (cu CHR ''$'') [backslash, cu CHR ''$'']
    (replace_unit (cu CHR ''}'') [backslash, cu CHR ''}'']
    (replace_unit (cu CHR ''{'') [backslash, cu CHR ''{'']
    (replace_unit backslash [backslash, backslash] str))))))"

text \<open>The seven characters \<^verbatim>\<open>\ { } $ & % #\<close> as code units.\<close>

definition bibtex_special :: "nat set" where
  "bibtex_special = {backslash, cu CHR ''{'', cu CHR ''}'', cu CHR ''$'', cu CHR ''&'',
     cu CHR ''%'', cu CHR ''#''}"

text \<open>What one code unit becomes: itself, with one backslash before it when it is special.\<close>

definition escape_unit :: "nat \<Rightarrow> jsstring" where
  "escape_unit c = (if c \<in> bibtex_special then [backslash, c] else [c])"

text \<open>Reading an escaped text back: a backslash announces one code unit taken as it is.\<close>

fun unescape :: "jsstring \<Rightarrow> jsstring" where
  "unescape [] = []"
| "unescape [c] = [c]"
| "unescape (c # d # s) = (if c = backslash then d # unescape s else c # unescape (d # s))"

section \<open>Articles\<close>

text \<open>
  \<^verbatim>\<open>
  @typedef {Object} Article
  @property {string} id            @property {string} title
  @property {string[]} authors     @property {string} journal
  @property {string} year          @property {string} documentType
  @property {boolean} isOpenAccess @property {boolean} isPeerReviewed
  \<close>
  The field \<^verbatim>\<open>id\<close> is \<open>id'\<close> here. A string is truthy when it is not empty.
\<close>

record article =
  id' :: jsstring
  title :: jsstring
  authors :: "jsstring list"
  journal :: jsstring
  year :: jsstring
  documentType :: jsstring
  isOpenAccess :: bool
  isPeerReviewed :: bool

section \<open>The document type tables\<close>

text \<open>
  \<^verbatim>\<open>
  const RIS_TYPE_MAP = { 'Artigo': 'JOUR', 'Cap\u00EDtulo de livro': 'CHAP', 'Carta': 'NEWS',
                         'Errata': 'JOUR', 'Revis\u00E3o': 'JOUR' };
  const BIBTEX_TYPE_MAP = { 'Artigo': 'article', 'Cap\u00EDtulo de livro': 'inbook',
                            'Carta': 'article', 'Errata': 'article', 'Revis\u00E3o': 'article' };
  \<close>
  (the source writes the letters U+00ED and U+00E3 themselves).
\<close>

definition RIS_TYPE_MAP :: "(jsstring \<times> jsstring) list" where
  "RIS_TYPE_MAP =
     [(js ''Artigo'', js ''JOUR''),
      (js ''Cap'' @ [237] @ js ''tulo de livro'', js ''CHAP''),
      (js ''Carta'', js ''NEWS''),
      (js ''Errata'', js ''JOUR''),
      (js ''Revis'' @ [227] @ js ''o'', js ''JOUR'')]"

definition BIBTEX_TYPE_MAP :: "(jsstring \<times> jsstring) list" where
  "BIBTEX_TYPE_MAP =
     [(js ''Artigo'', js ''article''),
      (js ''Cap'' @ [237] @ js ''tulo de livro'', js ''inbook''),
      (js ''Carta'', js ''article''),
      (js ''Errata'', js ''article''),
      (js ''Revis'' @ [227] @ js ''o'', js ''article'')]"

text \<open>
  \<^verbatim>\<open>TABLE[key] || dflt\<close>, the value then written into a template literal. Both
  tables are object literals, so a key that names a member of \<^verbatim>\<open>Object.prototype\<close>
  finds that member, which is truthy: a built-in function, printed by the template
  literal as its source text (in V8, the engine of the browsers the extension targets,
  \<^verbatim>\<open>function name() { [native code] }\<close>), or, for \<^verbatim>\<open>__proto__\<close>, the prototype
  object, printed as \<^verbatim>\<open>[object Object]\<close>.
\<close>

definition native_function :: "string \<Rightarrow> jsstring" where
  "native_function name = js ''function '' @ js name @ js ''() { [native code] }''"

definition Object_prototype :: "(jsstring \<times> jsstring) list" where
  "Object_prototype =
     [(js ''constructor'', native_function ''Object''),
      (js ''__defineGetter__'', native_function ''__defineGetter__''),
      (js ''__defineSetter__'', native_function ''__defineSetter__''),
      (js ''hasOwnProperty'', native_function ''hasOwnProperty''),
      (js ''__lookupGetter__'', native_function ''__lookupGetter__''),
      (js ''__lookupSetter__'', native_function ''__lookupSetter__''),
      (js ''isPrototypeOf'', native_function ''isPrototypeOf''),
      (js ''propertyIsEnumerable'', native_function ''propertyIsEnumerable''),
      (js ''toString'', native_function ''toString''),
      (js ''valueOf'', native_function ''valueOf''),
      (js ''__proto__'', js ''[object Object]''),
      (js ''toLocaleString'', native_function ''toLocaleString'')]"

definition lookup_or :: "(jsstring \<times> jsstring) list \<Rightarrow> jsstring \<Rightarrow> jsstring \<Rightarrow> jsstring" where
  "lookup_or table key dflt =
     (case map_of table key of
        Some v \<Rightarrow> v
      | None \<Rightarrow> (case map_of Object_prototype key of Some v \<Rightarrow> v | None \<Rightarrow> dflt))"

section \<open>FormatConverter\<close>

definition LF :: nat where
  "LF = 10"

definition CR :: nat where
  "CR = 13"

text \<open>
  \<^verbatim>\<open>
  static buildNotesArray(article) {
    const notes = [];
    if (article.isOpenAccess) notes.push('Open Access');
    if (article.isPeerReviewed) notes.push('Peer Reviewed');
    if (article.id) notes.push(`CAPES ID: ${article.id}`);
    return notes;
  }
  \<close>
\<close>

definition buildNotesArray :: "article \<Rightarrow> jsstring list" where
  "buildNotesArray article =
     (let notes = [];
          notes = (if isOpenAccess article then notes @ [js ''Open Access''] else notes);
          notes = (if isPeerReviewed article then notes @ [js ''Peer Reviewed''] else notes);
          notes = (if id' article \<noteq> [] then notes @ [js ''CAPES ID: '' @ id' article] else notes)
      in notes)"

text \<open>
  \<^verbatim>\<open>
  static articleToRIS(article) {
    const lines = [];
    const risType = RIS_TYPE_MAP[article.documentType] || 'JOUR';
    lines.push(`TY  - ${risType}`);
    if (article.title) {
      lines.push(`TI  - ${article.title}`);
    }
    article.authors.forEach(author => {
      lines.push(`AU  - ${author}`);
    });
    if (article.year) {
      const yearMatch = article.year.match(/(\d{4})/);
      if (yearMatch) {
        lines.push(`PY  - ${yearMatch[1]}`);
      }
    }
    if (article.journal) {
      lines.push(`T2  - ${article.journal}`);
      lines.push(`JF  - ${article.journal}`);
    }
    const notes = this.buildNotesArray(article);
    if (notes.length > 0) {
      lines.push(`N1  - ${notes.join('; ')}`);
    }
    lines.push('ER  - ');
    return lines.join('\r\n');
  }
  \<close>
  The array \<^verbatim>\<open>lines\<close> is passed along; \<^verbatim>\<open>push\<close> appends at its end.
\<close>

definition year_pattern :: "piece list" where
  "year_pattern = [Exactly 4 Digit]"

definition articleToRIS :: "article \<Rightarrow> jsstring" where
  "articleToRIS article =
     (let lines = [];
          risType = lookup_or RIS_TYPE_MAP (documentType article) (js ''JOUR'');
          lines = lines @ [js ''TY  - '' @ risType];
          lines = (if title article \<noteq> [] then lines @ [js ''TI  - '' @ title article] else lines);
          lines = foldl (\<lambda>lines author. lines @ [js ''AU  - '' @ author]) lines (authors article);
          lines = (if year article \<noteq> [] then
                     (case exec year_pattern (year article) of
                        Some yearMatch \<Rightarrow> lines @ [js ''PY  - '' @ yearMatch ! 0]
                      | None \<Rightarrow> lines)
                   else lines);
          lines = (if journal article \<noteq> [] then
                     (lines @ [js ''T2  - '' @ journal article]) @ [js ''JF  - '' @ journal article]
                   else lines);
          notes = buildNotesArray article;
          lines = (if length notes > 0 then lines @ [js ''N1  - '' @ join (js ''; '') notes]
                   else lines);
          lines = lines @ [js ''ER  - '']
      in join [CR, LF] lines)"

text \<open>
  \<^verbatim>\<open>
  static toRIS(articles) {
    const records = articles.map(article => this.articleToRIS(article));
    return records.join('\n\n') + '\n';
  }
  \<close>
\<close>

definition toRIS :: "article list \<Rightarrow> jsstring" where
  "toRIS articles =
     (let records = map (\<lambda>article. articleToRIS article) articles
      in join [LF, LF] records @ [LF])"

text \<open>The array \<^verbatim>\<open>records\<close> of toRIS: the blocks of the document.\<close>

definition ris_records :: "article list \<Rightarrow> jsstring list" where
  "ris_records articles = map (\<lambda>article. articleToRIS article) articles"

text \<open>
  \<^verbatim>\<open>
  static extractYear(yearStr) {
    if (!yearStr) return 'unknown';
    const match = yearStr.match(/(\d{4})/);
    return match ? match[1] : 'unknown';
  }
  \<close>
\<close>

definition extractYear :: "jsstring \<Rightarrow> jsstring" where
  "extractYear yearStr =
     (if yearStr = [] then js ''unknown''
      else case exec year_pattern yearStr of
        Some match \<Rightarrow> match ! 0
      | None \<Rightarrow> js ''unknown'')"

text \<open>
  \<^verbatim>\<open>String.prototype.toLowerCase\<close>, code unit by code unit, on what concerns its one
  caller, generateCitationKey: the letters A to Z, and the two characters outside
  ASCII whose lower case holds an ASCII letter (U+0130 becomes \<^verbatim>\<open>i\<close> and U+0307,
  the Kelvin sign U+212A becomes \<^verbatim>\<open>k\<close>). Every other character that has a lower
  case is outside ASCII and becomes characters outside ASCII and outside \<^verbatim>\<open>\s\<close>;
  it is left as it is here, and the replacement that follows in generateCitationKey
  deletes it either way.
\<close>

definition toLowerCase :: "jsstring \<Rightarrow> jsstring" where
  "toLowerCase s =
     concat (map (\<lambda>c. if is_upper c then [c + 32]
                        else if c = 304 then [105, 775]
                        else if c = 8490 then [107]
                        else [c]) s)"

text \<open>
  \<^verbatim>\<open>str.split(/\s+/)\<close>: the texts between the runs of white space, the empty text
  before a leading run and after a trailing one included; \<open>cur\<close> is the text read since
  the last run.
\<close>

function split_spaces_from :: "jsstring \<Rightarrow> jsstring \<Rightarrow> jsstring list" where
  "split_spaces_from cur [] = [cur]"
| "split_spaces_from cur (c # s) =
     (if is_space c then cur # split_spaces_from [] (dropWhile is_space s)
      else split_spaces_from (cur @ [c]) s)"
  by pat_completeness auto
termination
  by (relation "measure (\<lambda>(cur, s). length s)")
    (auto simp: less_Suc_eq_le length_dropWhile_le)

definition split_spaces :: "jsstring \<Rightarrow> jsstring list" where
  "split_spaces s = split_spaces_from [] s"

text \<open>
  \<^verbatim>\<open>
  static generateCitationKey(article) {
    const titleWords = article.title
      .toLowerCase()
      .replace(/[^a-z0-9\s]/g, '')
      .split(/\s+/)
      .filter(word => word.length > 3)
      .slice(0, 3);
    const year = this.extractYear(article.year);
    return titleWords.join('') + year;
  }
  \<close>
\<close>

definition generateCitationKey :: "article \<Rightarrow> jsstring" where
  "generateCitationKey article =
     (let titleWords =
            take 3 (filter (\<lambda>word. length word > 3)
              (split_spaces
                (replace_class (\<lambda>c. \<not> (is_lower c \<or> is_digit c \<or> is_space c)) []
                  (toLowerCase (title article)))));
          year = extractYear (year article)
      in join [] titleWords @ year)"

text \<open>
  \<^verbatim>\<open>
  static articleToBibTeX(article) {
    const citationKey = this.generateCitationKey(article);
    const entryType = BIBTEX_TYPE_MAP[article.documentType] || 'article';
    const lines = [`@${entryType}{${citationKey},`];
    lines.push(`  title = {${this.escapeBibTeX(article.title)}},`);
    if (article.authors.length > 0) {
      const authors = article.authors.join(' and ');
      lines.push(`  author = {${this.escapeBibTeX(authors)}},`);
    }
    if (article.journal) {
      lines.push(`  journal = {${this.escapeBibTeX(article.journal)}},`);
    }
    const year = this.extractYear(article.year);
    if (year !== 'unknown') {
      lines.push(`  year = {${year}},`);
    }
    const notes = this.buildNotesArray(article);
    if (notes.length > 0) {
      lines.push(`  note = {${this.escapeBibTeX(notes.join('; '))}},`);
    }
    lines.push('}');
    return lines.join('\n');
  }
  \<close>
\<close>

definition articleToBibTeX :: "article \<Rightarrow> jsstring" where
  "articleToBibTeX article =
     (let citationKey = generateCitationKey article;
          entryType = lookup_or BIBTEX_TYPE_MAP (documentType article) (js ''article'');
          lines = [js ''@'' @ entryType @ js ''{'' @ citationKey @ js '',''];
          lines = lines @ [js ''  title = {'' @ escapeBibTeX (title article) @ js ''},''];
          lines = (if length (authors article) > 0 then
                     lines @ [js ''  author = {''
                       @ escapeBibTeX (join (js '' and '') (authors article)) @ js ''},'']
                   else lines);
          lines = (if journal article \<noteq> [] then
                     lines @ [js ''  journal = {'' @ escapeBibTeX (journal article) @ js ''},'']
                   else lines);
          year = extractYear (year article);
          lines = (if year \<noteq> js ''unknown'' then lines @ [js ''  year = {'' @ year @ js ''},'']
                   else lines);
          notes = buildNotesArray article;
          lines = (if length notes > 0 then
                     lines @ [js ''  note = {'' @ escapeBibTeX (join (js ''; '') notes) @ js ''},'']
                   else lines);
          lines = lines @ [js ''}'']
      in join [LF] lines)"

text \<open>
  \<^verbatim>\<open>
  static toBibTeX(articles) {
    const entries = articles
      .filter(article => article.title)
      .map(article => this.articleToBibTeX(article));
    return entries.join('\n\n') + '\n';
  }
  \<close>
\<close>

definition toBibTeX :: "article list \<Rightarrow> jsstring" where
  "toBibTeX articles =
     (let entries = map (\<lambda>article. articleToBibTeX article)
                      (filter (\<lambda>article. title article \<noteq> []) articles)
      in join [LF, LF] entries @ [LF])"

text \<open>The array \<^verbatim>\<open>entries\<close> of toBibTeX: the entries of the document.\<close>

definition bibtex_entries :: "article list \<Rightarrow> jsstring list" where
  "bibtex_entries articles =
     map (\<lambda>article. articleToBibTeX article) (filter (\<lambda>article. title article \<noteq> []) articles)"

section \<open>What the converters are checked against\<close>

text \<open>
  The first four consecutive decimal digits of a text, read off the text directly:
  what \<^verbatim>\<open>/(\d{4})/\<close> is meant to capture.
\<close>

fun first_four_digits :: "jsstring \<Rightarrow> jsstring option" where
  "first_four_digits [] = None"
| "first_four_digits (c # s) =
     (if 4 \<le> length (c # s) \<and> list_all is_digit (take 4 (c # s)) then Some (take 4 (c # s))
      else first_four_digits s)"

text \<open>The lines of one RIS block, field by field, in the order of the format.\<close>

definition ris_block_lines :: "article \<Rightarrow> jsstring list" where
  "ris_block_lines a =
     [js ''TY  - '' @ lookup_or RIS_TYPE_MAP (documentType a) (js ''JOUR'')]
     @ (if title a = [] then [] else [js ''TI  - '' @ title a])
     @ map (\<lambda>author. js ''AU  - '' @ author) (authors a)
     @ (case first_four_digits (year a) of Some y \<Rightarrow> [js ''PY  - '' @ y] | None \<Rightarrow> [])
     @ (if journal a = [] then [] else [js ''T2  - '' @ journal a, js ''JF  - '' @ journal a])
     @ (if buildNotesArray a = [] then [] else [js ''N1  - '' @ join (js ''; '') (buildNotesArray a)])
     @ [js ''ER  - '']"

section \<open>Decimal numerals\<close>

text \<open>The decimal text of a natural number, as a template literal prints a count.\<close>

function show_nat :: "nat \<Rightarrow> jsstring" where
  "show_nat n = (if n < 10 then [48 + n] else show_nat (n div 10) @ [48 + n mod 10])"
  by pat_completeness auto
termination
  by (relation "measure (\<lambda>n. n)") auto

declare show_nat.simps [simp del]

section \<open>The export state\<close>

text \<open>
  \<^verbatim>\<open>
  @typedef {Object} ExportState
  @property {string} format - Export format (ris|bibtex)
  @property {Article[]} articles - Collected articles
  @property {Set<number>} processedPages - Set of processed page numbers
  @property {number} totalArticles - Total articles count estimate
  @property {Date} startTime - Export start timestamp
  \<close>
  The Set is the list of its elements in insertion order, which is the order
  \<^verbatim>\<open>Array.from\<close> lists them in; \<open>Set_add\<close> is \<^verbatim>\<open>Set.prototype.add\<close>. The Date is
  the text \<^verbatim>\<open>toISOString\<close> prints for it.
\<close>

record ExportState =
  format :: jsstring
  articles :: "article list"
  processedPages :: "int list"
  totalArticles :: int
  startTime :: jsstring

definition Set_add :: "'a \<Rightarrow> 'a list \<Rightarrow> 'a list" where
  "Set_add x xs = (if x \<in> set xs then xs else xs @ [x])"

section \<open>JSON values and the checkpoint slot\<close>

text \<open>
  The values \<^verbatim>\<open>JSON.parse\<close> returns. The numbers of a checkpoint are page indices
  and counts, so a number is an integer here. An object is the list of its properties.
\<close>

datatype json = JNull | JBool bool | JNum int | JStr jsstring | JArr "json list"
  | JObj "(jsstring \<times> json) list"

text \<open>
  The slot \<^verbatim>\<open>sessionStorage[STORAGE_KEY]\<close> holds a text or nothing. StateManager
  uses the text in two ways only, \<^verbatim>\<open>!data\<close> and \<^verbatim>\<open>JSON.parse(data)\<close>, so the text
  is modelled by what these make of it: the empty text; a text on which
  \<^verbatim>\<open>JSON.parse\<close> throws; a text that \<^verbatim>\<open>JSON.parse\<close> reads as a value (and that
  \<^verbatim>\<open>JSON.stringify\<close> writes for that value). The storage itself is there: reading
  and removing the item do not throw.
\<close>

datatype stored = Text_empty | Text_malformed | Text_json json

text \<open>
  \<^verbatim>\<open>value.key\<close> on a parsed value that is not \<^verbatim>\<open>null\<close>, for a key that no
  prototype defines: the property of an object, \<^verbatim>\<open>undefined\<close> (\<open>None\<close>) otherwise.
\<close>

definition get_property :: "json \<Rightarrow> jsstring \<Rightarrow> json option" where
  "get_property v key = (case v of JObj props \<Rightarrow> map_of props key | _ \<Rightarrow> None)"

text \<open>
  \<^verbatim>\<open>{...value}\<close>: the own enumerable properties of the value. An array and a string
  have their elements under the decimal indices; the other values have none.
\<close>

definition own_properties :: "json \<Rightarrow> (jsstring \<times> json) list" where
  "own_properties v =
     (case v of
        JObj props \<Rightarrow> props
      | JArr xs \<Rightarrow> zip (map show_nat [0 ..< length xs]) xs
      | JStr s \<Rightarrow> zip (map show_nat [0 ..< length s]) (map (\<lambda>c. JStr [c]) s)
      | _ \<Rightarrow> [])"

text \<open>
  \<^verbatim>\<open>new Set(iterable)\<close> on a parsed value or \<^verbatim>\<open>undefined\<close>: empty for
  \<^verbatim>\<open>undefined\<close> and \<^verbatim>\<open>null\<close>; the elements of an array; the characters (code
  points, a surrogate pair being one) of a string; a TypeError (\<open>None\<close>) for a number, a
  boolean or an object, which are not iterable. Elements are compared by SameValueZero:
  null, booleans, numbers and strings by value, while two arrays or objects that were
  parsed are never the same object.
\<close>

fun is_primitive :: "json \<Rightarrow> bool" where
  "is_primitive (JArr _) = False"
| "is_primitive (JObj _) = False"
| "is_primitive _ = True"

definition Set_add_json :: "json \<Rightarrow> json list \<Rightarrow> json list" where
  "Set_add_json v xs = (if is_primitive v \<and> v \<in> set xs then xs else xs @ [v])"

fun code_points :: "jsstring \<Rightarrow> jsstring list" where
  "code_points [] = []"
| "code_points [c] = [[c]]"
| "code_points (c # d # s) =
     (if 55296 \<le> c \<and> c \<le> 56319 \<and> 56320 \<le> d \<and> d \<le> 57343 then [c, d] # code_points s
      else [c] # code_points (d # s))"

definition new_Set :: "json option \<Rightarrow> json list option" where
  "new_Set iterable =
     (case iterable of
        None \<Rightarrow> Some []
      | Some JNull \<Rightarrow> Some []
      | Some (JArr xs) \<Rightarrow> Some (foldl (\<lambda>set x. Set_add_json x set) [] xs)
      | Some (JStr s) \<Rightarrow> Some (foldl (\<lambda>set x. Set_add_json x set) [] (map JStr (code_points s)))
      | Some _ \<Rightarrow> None)"

text \<open>
  Whether \<^verbatim>\<open>new Date(value)\<close> throws on a parsed value. The constructor converts
  an object to a primitive with \<^verbatim>\<open>valueOf\<close> and then \<^verbatim>\<open>toString\<close>. A parsed
  object inherits both from \<^verbatim>\<open>Object.prototype\<close>, and the inherited
  \<^verbatim>\<open>toString\<close> returns a text, unless the object has a property of its own named
  \<^verbatim>\<open>toString\<close>: that one is not callable, and the conversion throws a TypeError. An
  array is printed by \<^verbatim>\<open>join\<close>, which converts each element that is not
  \<^verbatim>\<open>null\<close> the same way. No other value throws; \<^verbatim>\<open>undefined\<close> and a text that is
  not a date give an invalid Date.
\<close>

fun Date_throws :: "json \<Rightarrow> bool" where
  "Date_throws (JObj props) = (js ''toString'' \<in> set (map fst props))"
| "Date_throws (JArr xs) = list_ex Date_throws xs"
| "Date_throws _ = False"

text \<open>
  The object StateManager.load returns: the properties spread from the parsed value
  other than the two it sets itself, the Set made from \<^verbatim>\<open>parsed.processedPages\<close>, and
  the value \<^verbatim>\<open>parsed.startTime\<close> from which the Date is made.
\<close>

record loaded_state =
  spread :: "(jsstring \<times> json) list"
  loaded_processedPages :: "json list"
  startTime_from :: "json option"

section \<open>The page, the controller and the browser\<close>

text \<open>
  What one run of the content script reads from its page, besides the address and the
  pagination: the articles \<^verbatim>\<open>ArticleExtractor.extractFromPage()\<close> returns on this
  document (the extraction from the markup is not part of this development), the text
  \<^verbatim>\<open>new Date().toISOString()\<close> gives when the state is initialised and when the file
  name is made, and whether \<^verbatim>\<open>sessionStorage.setItem\<close> throws (the quota is
  exceeded).
\<close>

record page =
  page_location :: location
  page_document :: pagination
  extractFromPage :: "article list"
  clock_init :: jsstring
  clock_download :: jsstring
  quota_exceeded :: bool

text \<open>
  What the content script changes: the fields of the ExportController
  (\<^verbatim>\<open>this.state\<close>, whether \<^verbatim>\<open>this.processingTimeout\<close> holds an armed timer, whether
  \<^verbatim>\<open>this.progressUI.overlay\<close> holds an element), the texts the overlay was given to
  show, the checkpoint slot of \<^verbatim>\<open>sessionStorage\<close>, the calls of
  \<^verbatim>\<open>FileDownloader.download\<close> as (content, filename), and the page number written
  into \<^verbatim>\<open>location.href\<close>. Timers are not run: a watchdog that is armed stays armed
  until it is cleared, and \<^verbatim>\<open>hide\<close>, which only starts a timer, changes nothing. The
  percentage given to the overlay is a floating-point number and is left out.
\<close>

record system =
  state :: "ExportState option"
  processingTimeout :: bool
  overlay :: bool
  statuses :: "jsstring list"
  storage :: "stored option"
  downloads :: "(jsstring \<times> jsstring) list"
  navigated :: "int option"

section \<open>FileDownloader.generateFilename\<close>

text \<open>
  \<^verbatim>\<open>
  const getTimestamp = () => new Date().toISOString().slice(0, 19).replace(/[:-]/g, '');

  static generateFilename(format) {
    const searchParams = new URLSearchParams(location.search);
    const searchTerm = searchParams.get('q') || 'capes-export';
    const cleanTerm = searchTerm.replace(/[^a-zA-Z0-9]/g, '_').slice(0, 20);
    const timestamp = getTimestamp();
    const ext = format === 'ris' ? 'ris' : 'bib';
    return `capes_${cleanTerm}_${timestamp}.${ext}`;
  }
  \<close>
\<close>

definition getTimestamp :: "page \<Rightarrow> jsstring" where
  "getTimestamp pg =
     replace_class (\<lambda>c. c = cu CHR '':'' \<or> c = cu CHR ''-'') [] (take 19 (clock_download pg))"

definition generateFilename :: "page \<Rightarrow> jsstring \<Rightarrow> jsstring" where
  "generateFilename pg fmt =
     (let searchTerm = (case param_q (page_location pg) of
                          None \<Rightarrow> js ''capes-export''
                        | Some q \<Rightarrow> if q = [] then js ''capes-export'' else q);
          cleanTerm = take 20
            (replace_class (\<lambda>c. \<not> (is_lower c \<or> is_upper c \<or> is_digit c)) (js ''_'') searchTerm);
          timestamp = getTimestamp pg;
          ext = (if fmt = js ''ris'' then js ''ris'' else js ''bib'')
      in js ''capes_'' @ cleanTerm @ js ''_'' @ timestamp @ js ''.'' @ ext)"

section \<open>StateManager\<close>

text \<open>
  \<^verbatim>\<open>
  static clear() {
    sessionStorage.removeItem(STORAGE_KEY);
  }
  \<close>
\<close>

definition clear :: "system \<Rightarrow> system" where
  "clear sys = sys\<lparr>storage := None\<rparr>"

text \<open>
  \<^verbatim>\<open>
  static save(state) {
    try {
      const serializedState = {
        ...state,
        processedPages: Array.from(state.processedPages),
        startTime: state.startTime.toISOString()
      };
      sessionStorage.setItem(STORAGE_KEY, JSON.stringify(serializedState));
    } catch (error) {
      console.warn('Failed to save export state:', error);
    }
  }
  \<close>
  \<open>serialize\<close> is the value \<^verbatim>\<open>JSON.stringify\<close> writes down. The one statement that can
  throw on an ExportState is \<^verbatim>\<open>setItem\<close>; the exception is swallowed and the slot
  keeps what it held.
\<close>

definition article_json :: "article \<Rightarrow> json" where
  "article_json a =
     JObj [(js ''id'', JStr (id' a)),
           (js ''title'', JStr (title a)),
           (js ''authors'', JArr (map JStr (authors a))),
           (js ''journal'', JStr (journal a)),
           (js ''year'', JStr (year a)),
           (js ''documentType'', JStr (documentType a)),
           (js ''isOpenAccess'', JBool (isOpenAccess a)),
           (js ''isPeerReviewed'', JBool (isPeerReviewed a))]"

definition serialize :: "ExportState \<Rightarrow> json" where
  "serialize st =
     JObj [(js ''format'', JStr (format st)),
           (js ''articles'', JArr (map article_json (articles st))),
           (js ''processedPages'', JArr (map JNum (processedPages st))),
           (js ''totalArticles'', JNum (totalArticles st)),
           (js ''startTime'', JStr (startTime st))]"

definition save :: "page \<Rightarrow> ExportState \<Rightarrow> system \<Rightarrow> system" where
  "save pg st sys =
     (if quota_exceeded pg then sys else sys\<lparr>storage := Some (Text_json (serialize st))\<rparr>)"

text \<open>
  \<^verbatim>\<open>
  static load() {
    try {
      const data = sessionStorage.getItem(STORAGE_KEY);
      if (!data) return null;
      const parsed = JSON.parse(data);
      return {
        ...parsed,
        processedPages: new Set(parsed.processedPages),
        startTime: new Date(parsed.startTime)
      };
    } catch (error) {
      console.warn('Failed to load export state:', error);
      this.clear();
      return null;
    }
  }
  \<close>
  Inside the \<^verbatim>\<open>try\<close>, \<^verbatim>\<open>JSON.parse\<close> throws on a malformed text, the property
  access \<^verbatim>\<open>parsed.processedPages\<close> throws when the text is \<^verbatim>\<open>null\<close>, and the two
  constructors throw as described above. Nothing else does.
\<close>

definition load :: "system \<Rightarrow> loaded_state option \<times> system" where
  "load sys =
     (case storage sys of
        None \<Rightarrow> (None, sys)
      | Some Text_empty \<Rightarrow> (None, sys)
      | Some Text_malformed \<Rightarrow> (None, clear sys)
      | Some (Text_json parsed) \<Rightarrow>
          (if parsed = JNull then (None, clear sys)
           else case new_Set (get_property parsed (js ''processedPages'')) of
             None \<Rightarrow> (None, clear sys)
           | Some pages \<Rightarrow>
               (case get_property parsed (js ''startTime'') of
                  Some v \<Rightarrow>
                    if Date_throws v then (None, clear sys)
                    else (Some \<lparr>spread = filter (\<lambda>(k, _). k \<noteq> js ''processedPages''
                                      \<and> k \<noteq> js ''startTime'') (own_properties parsed),
                                loaded_processedPages = pages,
                                startTime_from = Some v\<rparr>, sys)
                | None \<Rightarrow>
                    (Some \<lparr>spread = filter (\<lambda>(k, _). k \<noteq> js ''processedPages''
                                   \<and> k \<noteq> js ''startTime'') (own_properties parsed),
                           loaded_processedPages = pages,
                           startTime_from = None\<rparr>, sys))))"

section \<open>Reading a loaded checkpoint as an ExportState\<close>

text \<open>
  JavaScript hands the object that load returns to the controller as it is. The
  controller is modelled on ExportState values, so the loaded object is read as the
  ExportState whose checkpoint it is; \<open>as_ExportState\<close> is \<open>None\<close> for an object that is
  not the checkpoint of an ExportState (a field is missing or of another type, or the
  start time is not a text that \<^verbatim>\<open>toISOString\<close> prints), and the model says nothing
  about what the controller does with such an object.

  \<^verbatim>\<open>toISOString\<close> prints \<^verbatim>\<open>YYYY-MM-DDTHH:mm:ss.sssZ\<close> for a date of the years 0 to
  9999, and \<^verbatim>\<open>new Date\<close> reads such a text back to the same date.
\<close>

definition two_digits :: "jsstring \<Rightarrow> nat option" where
  "two_digits s =
     (case s of [a, b] \<Rightarrow> if is_digit a \<and> is_digit b then Some ((a - 48) * 10 + (b - 48)) else None
      | _ \<Rightarrow> None)"

definition four_digits :: "jsstring \<Rightarrow> nat option" where
  "four_digits s =
     (case (two_digits (take 2 s), two_digits (drop 2 s)) of
        (Some hi, Some lo) \<Rightarrow> Some (hi * 100 + lo)
      | _ \<Rightarrow> None)"

definition days_in_month :: "nat \<Rightarrow> nat \<Rightarrow> nat" where
  "days_in_month y m =
     (if m = 2 then (if y mod 4 = 0 \<and> (y mod 100 \<noteq> 0 \<or> y mod 400 = 0) then 29 else 28)
      else if m \<in> {4, 6, 9, 11} then 30 else 31)"

definition is_iso_timestamp :: "jsstring \<Rightarrow> bool" where
  "is_iso_timestamp s =
     (length s = 24
      \<and> s ! 4 = cu CHR ''-'' \<and> s ! 7 = cu CHR ''-'' \<and> s ! 10 = cu CHR ''T''
      \<and> s ! 13 = cu CHR '':'' \<and> s ! 16 = cu CHR '':'' \<and> s ! 19 = cu CHR ''.''
      \<and> s ! 23 = cu CHR ''Z''
      \<and> list_all is_digit (take 3 (drop 20 s))
      \<and> (case (four_digits (take 4 s), two_digits (take 2 (drop 5 s)),
               two_digits (take 2 (drop 8 s)), two_digits (take 2 (drop 11 s)),
               two_digits (take 2 (drop 14 s)), two_digits (take 2 (drop 17 s))) of
            (Some y, Some m, Some d, Some h, Some mi, Some se) \<Rightarrow>
              1 \<le> m \<and> m \<le> 12 \<and> 1 \<le> d \<and> d \<le> days_in_month y m
              \<and> h \<le> 23 \<and> mi \<le> 59 \<and> se \<le> 59
          | _ \<Rightarrow> False))"

definition json_string :: "json \<Rightarrow> jsstring option" where
  "json_string v = (case v of JStr s \<Rightarrow> Some s | _ \<Rightarrow> None)"

definition json_bool :: "json \<Rightarrow> bool option" where
  "json_bool v = (case v of JBool b \<Rightarrow> Some b | _ \<Rightarrow> None)"

definition json_int :: "json \<Rightarrow> int option" where
  "json_int v = (case v of JNum n \<Rightarrow> Some n | _ \<Rightarrow> None)"

text \<open>All the elements of a list of optional values, when none is missing.\<close>

fun those_all :: "'a option list \<Rightarrow> 'a list option" where
  "those_all [] = Some []"
| "those_all (None # _) = None"
| "those_all (Some x # xs) = (case those_all xs of Some ys \<Rightarrow> Some (x # ys) | None \<Rightarrow> None)"

definition json_strings :: "json \<Rightarrow> jsstring list option" where
  "json_strings v = (case v of JArr xs \<Rightarrow> those_all (map json_string xs) | _ \<Rightarrow> None)"

definition article_of_json :: "json \<Rightarrow> article option" where
  "article_of_json v =
     (case v of
        JObj [(k1, JStr i), (k2, JStr t), (k3, JArr au), (k4, JStr j), (k5, JStr y),
              (k6, JStr dt), (k7, JBool oa), (k8, JBool pr)] \<Rightarrow>
          (case those_all (map json_string au) of
             Some aus \<Rightarrow>
               (let a = \<lparr>id' = i, title = t, authors = aus, journal = j, year = y,
                          documentType = dt, isOpenAccess = oa, isPeerReviewed = pr\<rparr>
                in if article_json a = v then Some a else None)
           | None \<Rightarrow> None)
      | _ \<Rightarrow> None)"

definition loaded_from :: "ExportState \<Rightarrow> loaded_state" where
  "loaded_from st =
     \<lparr>spread = [(js ''format'', JStr (format st)),
                (js ''articles'', JArr (map article_json (articles st))),
                (js ''totalArticles'', JNum (totalArticles st))],
      loaded_processedPages = map JNum (processedPages st),
      startTime_from = Some (JStr (startTime st))\<rparr>"

definition as_ExportState :: "loaded_state \<Rightarrow> ExportState option" where
  "as_ExportState l =
     (case (spread l, those_all (map json_int (loaded_processedPages l)), startTime_from l) of
        ([(k1, JStr f), (k2, JArr arts), (k3, JNum n)], Some pages, Some (JStr t)) \<Rightarrow>
          (case those_all (map article_of_json arts) of
             Some collected \<Rightarrow>
               (let st = \<lparr>format = f, articles = collected, processedPages = pages,
                           totalArticles = n, startTime = t\<rparr>
                in if loaded_from st = l \<and> is_iso_timestamp t then Some st else None)
           | None \<Rightarrow> None)
      | _ \<Rightarrow> None)"

section \<open>ProgressUI\<close>

text \<open>
  \<^verbatim>\<open>
  show(message = 'Initializing export...') {
    if (this.overlay) return;
    this.overlay = this.createElement();
    document.body.appendChild(this.overlay);
    this.updateStatus(message, 0);
  }
  updateStatus(message, progress) {
    if (!this.overlay) return;
    ...
    if (statusEl) statusEl.textContent = message;
    ...
  }
  \<close>
  \<^verbatim>\<open>show\<close> is \<open>show_overlay\<close> here.
\<close>

definition updateStatus :: "jsstring \<Rightarrow> system \<Rightarrow> system" where
  "updateStatus message sys =
     (if \<not> overlay sys then sys else sys\<lparr>statuses := statuses sys @ [message]\<rparr>)"

definition show_overlay :: "jsstring \<Rightarrow> system \<Rightarrow> system" where
  "show_overlay message sys =
     (if overlay sys then sys else updateStatus message (sys\<lparr>overlay := True\<rparr>))"

section \<open>ExportController\<close>

text \<open>
  \<^verbatim>\<open>
  setProcessingTimeout() {
    this.clearProcessingTimeout();
    this.processingTimeout = setTimeout(() => { ... }, PROCESSING_TIMEOUT);
  }
  clearProcessingTimeout() {
    if (this.processingTimeout) {
      clearTimeout(this.processingTimeout);
      this.processingTimeout = null;
    }
  }
  \<close>
\<close>

definition clearProcessingTimeout :: "system \<Rightarrow> system" where
  "clearProcessingTimeout sys = sys\<lparr>processingTimeout := False\<rparr>"

definition setProcessingTimeout :: "system \<Rightarrow> system" where
  "setProcessingTimeout sys = (clearProcessingTimeout sys)\<lparr>processingTimeout := True\<rparr>"

text \<open>
  \<^verbatim>\<open>
  handleError(error) {
    this.clearProcessingTimeout();
    const message = `\u274C Export failed: ${error.message}`;
    this.progressUI.updateStatus(message, 0);
    this.progressUI.hide(4000);
    StateManager.clear();
    console.error('CAPES Export Error:', error);
  }
  \<close>
  The argument is the message of the error.
\<close>

definition handleError :: "jsstring \<Rightarrow> system \<Rightarrow> system" where
  "handleError error_message sys =
     (let sys = clearProcessingTimeout sys;
          message = [10060] @ js '' Export failed: '' @ error_message;
          sys = updateStatus message sys
      in clear sys)"

text \<open>
  \<^verbatim>\<open>
  clearExistingExport() {
    this.clearProcessingTimeout();
    StateManager.clear();
    const existingOverlay = $('.capes-export-overlay');
    if (existingOverlay) {
      existingOverlay.remove();
    }
  }
  \<close>
  Removing the element from the document leaves \<^verbatim>\<open>this.progressUI.overlay\<close> as it is.
\<close>

definition clearExistingExport :: "system \<Rightarrow> system" where
  "clearExistingExport sys = clear (clearProcessingTimeout sys)"

text \<open>
  \<^verbatim>\<open>
  initializeState(format) {
    this.state = {
      format,
      articles: [],
      processedPages: new Set(),
      totalArticles: PageNavigator.getTotalArticlesEstimate(),
      startTime: new Date()
    };
  }
  \<close>
\<close>

definition initializeState :: "page \<Rightarrow> jsstring \<Rightarrow> system \<Rightarrow> system" where
  "initializeState pg fmt sys =
     sys\<lparr>state := Some \<lparr>format = fmt, articles = [], processedPages = [],
                          totalArticles = getTotalArticlesEstimate (page_document pg),
                          startTime = clock_init pg\<rparr>\<rparr>"

text \<open>
  \<^verbatim>\<open>
  generateExportContent() {
    return this.state.format === 'ris'
      ? FormatConverter.toRIS(this.state.articles)
      : FormatConverter.toBibTeX(this.state.articles);
  }
  \<close>
\<close>

definition generateExportContent :: "ExportState \<Rightarrow> jsstring" where
  "generateExportContent st =
     (if format st = js ''ris'' then toRIS (articles st) else toBibTeX (articles st))"

text \<open>
  \<^verbatim>\<open>
  updateProgress() {
    const progress = this.calculateProgress();
    const message = `Collected ${this.state.articles.length} articles from ${this.state.processedPages.size} pages`;
    this.progressUI.updateStatus(message, progress);
  }
  \<close>
\<close>

definition updateProgress :: "ExportState \<Rightarrow> system \<Rightarrow> system" where
  "updateProgress st sys =
     updateStatus (js ''Collected '' @ show_nat (length (articles st)) @ js '' articles from ''
       @ show_nat (length (processedPages st)) @ js '' pages'') sys"

text \<open>
  \<^verbatim>\<open>
  shouldContinueToNextPage(currentPage) {
    const nextPage = currentPage + 1;
    return PageNavigator.hasNextPage() && !this.state.processedPages.has(nextPage);
  }
  \<close>
  The result is used as a condition, so it is its truthiness that is returned here.
\<close>

definition shouldContinueToNextPage :: "page \<Rightarrow> ExportState \<Rightarrow> int \<Rightarrow> bool" where
  "shouldContinueToNextPage pg st currentPage =
     (let nextPage = currentPage + 1
      in truthy (hasNextPage (page_document pg)) \<and> nextPage \<notin> set (processedPages st))"

text \<open>
  \<^verbatim>\<open>
  async navigateToNextPage() {
    this.progressUI.updateStatus('Navigating to next page...', this.calculateProgress());
    await sleep(NAV_DELAY);
    PageNavigator.goToNextPage();
  }
  static goToNextPage() {
    const nextPage = this.getCurrentPage() + 1;
    const url = new URL(location.href);
    url.searchParams.set('page', nextPage);
    location.href = url.toString();
  }
  \<close>
\<close>

definition navigateToNextPage :: "page \<Rightarrow> system \<Rightarrow> system" where
  "navigateToNextPage pg sys =
     (let sys = updateStatus (js ''Navigating to next page...'') sys
      in sys\<lparr>navigated := Some (getCurrentPage (page_location pg) + 1)\<rparr>)"

text \<open>
  \<^verbatim>\<open>
  async completeExport() {
    this.clearProcessingTimeout();
    if (this.state.articles.length === 0) {
      this.handleError(new Error('No articles found to export'));
      return;
    }
    this.progressUI.updateStatus('Generating file...', 95);
    const content = this.generateExportContent();
    const filename = FileDownloader.generateFilename(this.state.format);
    FileDownloader.download(content, filename);
    const message = `\u2705 Successfully exported ${this.state.articles.length} articles!`;
    this.progressUI.updateStatus(message, 100);
    this.progressUI.hide();
    StateManager.clear();
  }
  \<close>
\<close>

definition completeExport :: "page \<Rightarrow> ExportState \<Rightarrow> system \<Rightarrow> system" where
  "completeExport pg st sys =
     (let sys = clearProcessingTimeout sys
      in if length (articles st) = 0 then handleError (js ''No articles found to export'') sys
         else
           (let sys = updateStatus (js ''Generating file...'') sys;
                content = generateExportContent st;
                filename = generateFilename pg (format st);
                sys = sys\<lparr>downloads := downloads sys @ [(content, filename)]\<rparr>;
                message = [9989] @ js '' Successfully exported '' @ show_nat (length (articles st))
                            @ js '' articles!'';
                sys = updateStatus message sys
            in clear sys))"

text \<open>
  \<^verbatim>\<open>
  async processCurrentPage() {
    if (!this.state) return;
    this.setProcessingTimeout();
    const currentPage = PageNavigator.getCurrentPage();
    const articles = ArticleExtractor.extractFromPage();
    if (articles.length > 0) {
      this.state.articles.push(...articles);
      this.state.processedPages.add(currentPage);
      StateManager.save(this.state);
    }
    this.updateProgress();
    if (this.shouldContinueToNextPage(currentPage)) {
      await this.navigateToNextPage();
    } else {
      await this.completeExport();
    }
  }
  \<close>
  \<open>harvest\<close> is the part that changes \<^verbatim>\<open>this.state\<close>: the bookkeeping of the
  articles of the current page.
\<close>

definition harvest :: "page \<Rightarrow> ExportState \<Rightarrow> ExportState" where
  "harvest pg st =
     (let currentPage = getCurrentPage (page_location pg);
          found = extractFromPage pg
      in if length found > 0 then
           st\<lparr>articles := articles st @ found,
              processedPages := Set_add currentPage (processedPages st)\<rparr>
         else st)"

definition processCurrentPage :: "page \<Rightarrow> system \<Rightarrow> system" where
  "processCurrentPage pg sys =
     (case state sys of
        None \<Rightarrow> sys
      | Some st \<Rightarrow>
          (let sys = setProcessingTimeout sys;
               currentPage = getCurrentPage (page_location pg);
               found = extractFromPage pg;
               st' = harvest pg st;
               sys = sys\<lparr>state := Some st'\<rparr>;
               sys = (if length found > 0 then save pg st' sys else sys);
               sys = updateProgress st' sys
           in if shouldContinueToNextPage pg st' currentPage then navigateToNextPage pg sys
              else completeExport pg st' sys))"

text \<open>
  \<^verbatim>\<open>
  async startExport(format) {
    try {
      this.clearExistingExport();
      this.initializeState(format);
      this.progressUI.show('Starting export...');
      await this.processCurrentPage();
    } catch (error) {
      console.error('Export failed:', error);
      this.handleError(error);
    }
  }
  \<close>
  No statement of the \<^verbatim>\<open>try\<close> block throws on the values of this model.
\<close>

definition startExport :: "page \<Rightarrow> jsstring \<Rightarrow> system \<Rightarrow> system" where
  "startExport pg fmt sys =
     processCurrentPage pg
       (show_overlay (js ''Starting export...'') (initializeState pg fmt (clearExistingExport sys)))"

text \<open>
  \<^verbatim>\<open>
  async resumeExport() {
    try {
      this.state = StateManager.load();
      if (!this.state) return;
      this.progressUI.show('Resuming export...');
      await sleep(500);
      await this.processCurrentPage();
    } catch (error) {
      console.error('Resume failed:', error);
      this.handleError(error);
    }
  }
  \<close>
  The result is \<open>None\<close> when the slot holds an object that is not the checkpoint of an
  ExportState: what the program does then is outside this model.
\<close>

definition resumeExport :: "page \<Rightarrow> system \<Rightarrow> system option" where
  "resumeExport pg sys =
     (case load sys of
        (None, sys) \<Rightarrow> Some (sys\<lparr>state := None\<rparr>)
      | (Some l, sys) \<Rightarrow>
          (case as_ExportState l of
             None \<Rightarrow> None
           | Some st \<Rightarrow>
               Some (processCurrentPage pg
                 (show_overlay (js ''Resuming export...'') (sys\<lparr>state := Some st\<rparr>)))))"

text \<open>
  The message handler and the start of the script:
  \<^verbatim>\<open>
  chrome.runtime.onMessage.addListener((message, sender, sendResponse) => {
    if (message.action === 'export' && message.format) {
      exportController.startExport(message.format);
      sendResponse({ success: true });
    }
    return true;
  });

  if (StateManager.load()) {
    exportController.resumeExport();
  }
  \<close>
  A message has an action and a format (\<open>msg_format\<close> here), each a text or absent.
  The handler's answer is the value of \<^verbatim>\<open>success\<close> it sends, \<open>None\<close> when it
  sends nothing.
\<close>

record message =
  action :: "jsstring option"
  msg_format :: "jsstring option"

definition onMessage :: "page \<Rightarrow> message \<Rightarrow> system \<Rightarrow> system \<times> bool option" where
  "onMessage pg msg sys =
     (case (action msg, msg_format msg) of
        (Some a, Some fmt) \<Rightarrow>
          if a = js ''export'' \<and> fmt \<noteq> [] then (startExport pg fmt sys, Some True)
          else (sys, None)
      | _ \<Rightarrow> (sys, None))"


text \<open>
  A new page starts the script with a new controller; the session storage and what was
  downloaded stay.
\<close>

definition new_instance :: "system \<Rightarrow> system" where
  "new_instance sys =
     \<lparr>state = None, processingTimeout = False, overlay = False, statuses = [],
      storage = storage sys, downloads = downloads sys, navigated = None\<rparr>"

section \<open>The system before the decision of processCurrentPage\<close>

text \<open>
  The system as \<^verbatim>\<open>processCurrentPage\<close> has it when it decides between navigation
  and completion: the watchdog armed, the state after the bookkeeping, the checkpoint
  written when articles were found, the progress reported.
\<close>

definition after_harvest :: "page \<Rightarrow> ExportState \<Rightarrow> system \<Rightarrow> system" where
  "after_harvest pg st sys =
     updateProgress (harvest pg st)
       (let sys1 = (setProcessingTimeout sys)\<lparr>state := Some (harvest pg st)\<rparr>
        in if extractFromPage pg \<noteq> [] then save pg (harvest pg st) sys1 else sys1)"

section \<open>The lifetime of an export run\<close>



text \<open>The ExportState a script start would resume from, if the slot holds one.\<close>

definition checkpoint_of :: "system \<Rightarrow> ExportState option" where
  "checkpoint_of sys = (case load sys of (Some l, _) \<Rightarrow> as_ExportState l | (None, _) \<Rightarrow> None)"


section \<open>A small export, for the examples\<close>

text \<open>
  The record of the specification's end-to-end example, a first page that shows it and
  has a next button, a last page without articles and without a next button, the
  checkpoint written after the first page, and a browser in which nothing has happened.
\<close>

definition example_article :: article where
  "example_article =
     \<lparr>id' = js ''123'', title = js ''A Study of X'', authors = [js ''Smith, J.''],
      journal = js ''Journal Y'', year = js ''2020'', documentType = js ''Artigo'',
      isOpenAccess = True, isPeerReviewed = False\<rparr>"

definition first_page :: page where
  "first_page =
     \<lparr>page_location = \<lparr>param_page = Some (js ''1''), param_q = Some (js ''x'')\<rparr>,
      page_document = \<lparr>nextButton = True, pageInfo = None\<rparr>,
      extractFromPage = [example_article],
      clock_init = js ''2024-02-29T10:11:12.345Z'',
      clock_download = js ''2024-02-29T10:11:15.000Z'',
      quota_exceeded = False\<rparr>"

definition last_page :: page where
  "last_page =
     \<lparr>page_location = \<lparr>param_page = Some (js ''2''), param_q = Some (js ''x'')\<rparr>,
      page_document = \<lparr>nextButton = False, pageInfo = None\<rparr>,
      extractFromPage = [],
      clock_init = js ''2024-02-29T10:11:14.000Z'',
      clock_download = js ''2024-02-29T10:11:15.000Z'',
      quota_exceeded = False\<rparr>"

definition only_page :: page where
  "only_page =
     \<lparr>page_location = \<lparr>param_page = None, param_q = None\<rparr>,
      page_document = \<lparr>nextButton = False, pageInfo = None\<rparr>,
      extractFromPage = [example_article],
      clock_init = js ''2024-02-29T10:11:12.345Z'',
      clock_download = js ''2024-02-29T10:11:15.000Z'',
      quota_exceeded = False\<rparr>"

definition example_checkpoint :: ExportState where
  "example_checkpoint =
     \<lparr>format = js ''ris'', articles = [example_article], processedPages = [1],
      totalArticles = 0, startTime = js ''2024-02-29T10:11:12.345Z''\<rparr>"

definition untouched :: system where
  "untouched =
     \<lparr>state = None, processingTimeout = False, overlay = False, statuses = [],
      storage = None, downloads = [], navigated = None\<rparr>"

section \<open>The matcher against the language of a pattern\<close>

lemma take_run_all:
  assumes "k \<le> length (takeWhile P s)"
  shows "list_all P (take k s)"
proof -
  have "take k s = take k (takeWhile P s @ dropWhile P s)" by simp
  also have "\<dots> = take k (takeWhile P s)" using assms by (simp del: takeWhile_dropWhile_id)
  finally have "set (take k s) \<subseteq> set (takeWhile P s)" by (simp add: set_take_subset)
  then show ?thesis by (auto simp: list_all_iff dest: set_takeWhileD)
qed

lemma run_length_append:
  "list_all P m \<Longrightarrow> length m \<le> length (takeWhile P (m @ r))"
  by (simp add: list_all_iff takeWhile_append2)

lemma prefix_runs:
  "(\<exists>k. lo \<le> k \<and> k \<le> length (takeWhile P s) \<and> m = take k s \<and> r = drop k s)
   \<longleftrightarrow> (lo \<le> length m \<and> list_all P m \<and> s = m @ r)"
proof
  assume "\<exists>k. lo \<le> k \<and> k \<le> length (takeWhile P s) \<and> m = take k s \<and> r = drop k s"
  then obtain k where k: "lo \<le> k" "k \<le> length (takeWhile P s)" "m = take k s" "r = drop k s"
    by blast
  have "length (takeWhile P s) \<le> length s" by (rule length_takeWhile_le)
  with k show "lo \<le> length m \<and> list_all P m \<and> s = m @ r"
    by (simp add: take_run_all)
next
  assume a: "lo \<le> length m \<and> list_all P m \<and> s = m @ r"
  then have "length m \<le> length (takeWhile P s)" by (simp add: run_length_append)
  with a show "\<exists>k. lo \<le> k \<and> k \<le> length (takeWhile P s) \<and> m = take k s \<and> r = drop k s"
    by (intro exI [of _ "length m"]) simp
qed

lemma pmatch_Star_set:
  "set (pmatch (Star a) s) = {(take k s, drop k s) | k. k \<le> length (takeWhile (atom_ok a) s)}"
proof -
  have "set (pmatch (Star a) s) = (\<lambda>k. (take k s, drop k s)) ` {0 ..< Suc (length (takeWhile (atom_ok a) s))}"
    by (simp del: upt_Suc)
  also have "\<dots> = {(take k s, drop k s) | k. k \<le> length (takeWhile (atom_ok a) s)}"
    by (auto simp: less_Suc_eq_le)
  finally show ?thesis .
qed

lemma pmatch_Plus_set:
  "set (pmatch (Plus a) s) = {(take k s, drop k s) | k. 1 \<le> k \<and> k \<le> length (takeWhile (atom_ok a) s)}"
proof -
  have "set (pmatch (Plus a) s) = (\<lambda>k. (take k s, drop k s)) ` {1 ..< Suc (length (takeWhile (atom_ok a) s))}"
    by (simp del: upt_Suc)
  also have "\<dots> = {(take k s, drop k s) | k. 1 \<le> k \<and> k \<le> length (takeWhile (atom_ok a) s)}"
    by (auto simp: less_Suc_eq_le)
  finally show ?thesis .
qed

lemma pmatch_iff: "(m, r) \<in> set (pmatch p s) \<longleftrightarrow> piece_lang p m \<and> s = m @ r"
proof (cases p)
  case (One a)
  then show ?thesis by (cases s; cases m) auto
next
  case (Star a)
  have "(m, r) \<in> set (pmatch (Star a) s)
    \<longleftrightarrow> (\<exists>k. 0 \<le> k \<and> k \<le> length (takeWhile (atom_ok a) s) \<and> m = take k s \<and> r = drop k s)"
    unfolding pmatch_Star_set by blast
  then show ?thesis unfolding Star prefix_runs by simp
next
  case (Plus a)
  have "(m, r) \<in> set (pmatch (Plus a) s)
    \<longleftrightarrow> (\<exists>k. 1 \<le> k \<and> k \<le> length (takeWhile (atom_ok a) s) \<and> m = take k s \<and> r = drop k s)"
    unfolding pmatch_Plus_set by blast
  then show ?thesis unfolding Plus prefix_runs by (cases m) simp_all
next
  case (Exactly n a)
  show ?thesis
  proof
    assume "(m, r) \<in> set (pmatch p s)"
    then have n: "n \<le> length (takeWhile (atom_ok a) s)" and m: "m = take n s" and r: "r = drop n s"
      by (simp_all add: Exactly split: if_splits)
    have "length (takeWhile (atom_ok a) s) \<le> length s" by (rule length_takeWhile_le)
    with n m r show "piece_lang p m \<and> s = m @ r"
      by (simp add: Exactly take_run_all)
  next
    assume a: "piece_lang p m \<and> s = m @ r"
    then have "length m \<le> length (takeWhile (atom_ok a) (m @ r))"
      by (intro run_length_append) (simp add: Exactly)
    with a show "(m, r) \<in> set (pmatch p s)" by (auto simp: Exactly)
  qed
qed

lemma seq_match_Cons_mem:
  "(ms, r) \<in> set (seq_match (p # ps) s) \<longleftrightarrow>
     (\<exists>m ms' r'. ms = m # ms' \<and> (m, r') \<in> set (pmatch p s) \<and> (ms', r) \<in> set (seq_match ps r'))"
proof
  assume "(ms, r) \<in> set (seq_match (p # ps) s)"
  then obtain x where x: "x \<in> set (pmatch p s)"
    and "(ms, r) \<in> set (map (\<lambda>(ms, r'). (fst x # ms, r')) (seq_match ps (snd x)))"
    by (auto simp: split_def)
  then obtain y where y: "y \<in> set (seq_match ps (snd x))" and "(ms, r) = (fst x # fst y, snd y)"
    by (auto simp: split_def)
  then have "ms = fst x # fst y" "(fst x, snd x) \<in> set (pmatch p s)" "(fst y, r) \<in> set (seq_match ps (snd x))"
    using x by simp_all
  then show "\<exists>m ms' r'. ms = m # ms' \<and> (m, r') \<in> set (pmatch p s) \<and> (ms', r) \<in> set (seq_match ps r')"
    by blast
next
  assume "\<exists>m ms' r'. ms = m # ms' \<and> (m, r') \<in> set (pmatch p s) \<and> (ms', r) \<in> set (seq_match ps r')"
  then obtain m ms' r' where ms: "ms = m # ms'" and m: "(m, r') \<in> set (pmatch p s)"
    and t: "(ms', r) \<in> set (seq_match ps r')" by blast
  from t have "(m # ms', r) \<in> set (map (\<lambda>(ms, r'). (m # ms, r')) (seq_match ps r'))"
    by (simp add: image_iff split_def) (rule bexI [of _ "(ms', r)"], simp_all)
  then have "(m # ms', r) \<in> set ((\<lambda>(m, r). map (\<lambda>(ms, r'). (m # ms, r')) (seq_match ps r)) (m, r'))"
    by simp
  with m show "(ms, r) \<in> set (seq_match (p # ps) s)"
    unfolding ms seq_match.simps set_concat set_map by blast
qed

lemma seq_match_iff:
  "(ms, r) \<in> set (seq_match ps s) \<longleftrightarrow> list_all2 piece_lang ps ms \<and> s = concat ms @ r"
proof (induction ps arbitrary: s ms)
  case Nil
  then show ?case by auto
next
  case (Cons p ps)
  have "(ms, r) \<in> set (seq_match (p # ps) s) \<longleftrightarrow>
     (\<exists>m ms' r'. ms = m # ms' \<and> piece_lang p m \<and> s = m @ r'
        \<and> list_all2 piece_lang ps ms' \<and> r' = concat ms' @ r)"
    unfolding seq_match_Cons_mem pmatch_iff Cons.IH by blast
  also have "\<dots> \<longleftrightarrow> list_all2 piece_lang (p # ps) ms \<and> s = concat ms @ r"
    by (cases ms) auto
  finally show ?case .
qed


lemma first_match_None_iff: "first_match ps s = None \<longleftrightarrow> seq_match ps s = []"
  by (simp add: first_match_def split: list.splits)

lemma first_match_SomeD:
  "first_match ps s = Some ms \<Longrightarrow> \<exists>r. list_all2 piece_lang ps ms \<and> s = concat ms @ r"
proof -
  assume "first_match ps s = Some ms"
  then obtain r rest where "seq_match ps s = (ms, r) # rest"
    by (auto simp: first_match_def split: list.splits)
  then have "(ms, r) \<in> set (seq_match ps s)" by simp
  then show ?thesis unfolding seq_match_iff by blast
qed

lemma first_match_NoneD:
  "first_match ps s = None \<Longrightarrow> list_all2 piece_lang ps ms \<Longrightarrow> s \<noteq> concat ms @ r"
proof
  assume n: "first_match ps s = None" and l: "list_all2 piece_lang ps ms" and s: "s = concat ms @ r"
  from l s have "(ms, r) \<in> set (seq_match ps s)" unfolding seq_match_iff by simp
  with n show False by (simp add: first_match_None_iff)
qed

lemma exec_SomeD:
  "exec ps s = Some ms \<Longrightarrow> \<exists>pre post. list_all2 piece_lang ps ms \<and> s = pre @ concat ms @ post"
proof (induction ps s rule: exec.induct)
  case (1 ps)
  then show ?case using first_match_SomeD [of ps "[]" ms] by auto
next
  case (2 ps c s)
  show ?case
  proof (cases "first_match ps (c # s)")
    case None
    with 2 obtain pre post where "list_all2 piece_lang ps ms" "s = pre @ concat ms @ post"
      by auto
    then have "list_all2 piece_lang ps ms \<and> c # s = (c # pre) @ concat ms @ post" by simp
    then show ?thesis by blast
  next
    case (Some a)
    with 2 have "first_match ps (c # s) = Some ms" by simp
    from first_match_SomeD [OF this] obtain r where
      "list_all2 piece_lang ps ms \<and> c # s = [] @ concat ms @ r" by auto
    then show ?thesis by blast
  qed
qed

lemma exec_NoneD:
  "exec ps s = None \<Longrightarrow> list_all2 piece_lang ps ms \<Longrightarrow> s \<noteq> pre @ concat ms @ post"
proof (induction pre arbitrary: s)
  case Nil
  then have "first_match ps s = None" by (cases s) (auto split: option.splits)
  from first_match_NoneD [OF this Nil.prems(2)] show ?case by simp
next
  case (Cons c pre)
  show ?case
  proof
    assume s: "s = (c # pre) @ concat ms @ post"
    with Cons.prems(1) have "exec ps (pre @ concat ms @ post) = None"
      by (auto split: option.splits)
    from Cons.IH [OF this Cons.prems(2)] show False by simp
  qed
qed












lemma atom_ok_Digit: "atom_ok Digit = is_digit"
  by (rule ext) simp










section \<open>PageNavigator: properties\<close>

















section \<open>Properties of escapeBibTeX\<close>

lemma replace_unit_Nil: "replace_unit c r [] = []"
  by (simp add: replace_unit_def)

lemma replace_unit_Cons:
  "replace_unit c r (x # s) = (if x = c then r else [x]) @ replace_unit c r s"
  by (simp add: replace_unit_def)

lemma replace_unit_append:
  "replace_unit c r (s @ t) = replace_unit c r s @ replace_unit c r t"
  by (simp add: replace_unit_def)

lemma escapeBibTeX_Nil: "escapeBibTeX [] = []"
  by (simp add: escapeBibTeX_def replace_unit_Nil)

lemma escapeBibTeX_Cons: "escapeBibTeX (c # s) = escape_unit c @ escapeBibTeX s"
  by (simp add: escapeBibTeX_def replace_unit_Cons replace_unit_append replace_unit_Nil
      escape_unit_def bibtex_special_def backslash_def cu_def)

lemma escapeBibTeX_single_pass: "escapeBibTeX s = concat (map escape_unit s)"
  by (induction s) (simp_all add: escapeBibTeX_Nil escapeBibTeX_Cons)

lemma escapeBibTeX_safe:
  "set s \<inter> bibtex_special = {} \<Longrightarrow> escapeBibTeX s = s"
  by (induction s) (simp_all add: escapeBibTeX_Nil escapeBibTeX_Cons escape_unit_def)

lemma unescape_escapeBibTeX: "unescape (escapeBibTeX s) = s"
proof (induction s)
  case Nil
  show ?case by (simp add: escapeBibTeX_Nil)
next
  case (Cons c s)
  show ?case
  proof (cases "c \<in> bibtex_special")
    case True
    then show ?thesis
      using Cons by (cases "escapeBibTeX s") (simp_all add: escapeBibTeX_Cons escape_unit_def)
  next
    case False
    then have "c \<noteq> backslash" by (auto simp: bibtex_special_def)
    then show ?thesis
      using Cons False by (cases "escapeBibTeX s") (simp_all add: escapeBibTeX_Cons escape_unit_def)
  qed
qed

text \<open>
  Claim C5. escapeBibTeX puts a backslash before exactly the seven characters
  \<^verbatim>\<open>\ { } $ & % #\<close>, the backslash substitution being the first one applied: the seven
  replacements in the source's order amount to one pass that sends every code unit
  to itself, preceded by exactly one backslash when it is one of the seven; nothing is
  escaped twice (the text reads back to the input); an input that holds none of the
  seven characters is returned as it is, and escaping it again changes nothing.
\<close>

theorem escapeBibTeX_escapes_each_special_once:
  "escapeBibTeX s = concat (map escape_unit s)
   \<and> escapeBibTeX s =
       replace_unit (cu CHR ''#'') [backslash, cu CHR ''#'']
      (replace_unit (cu CHR ''%'') [backslash, cu CHR ''%'']
      (replace_unit (cu CHR ''&'') [backslash, cu CHR ''&'']
      (replace_unit (cu CHR ''$'') [backslash, cu CHR ''$'']
      (replace_unit (cu CHR ''}'') [backslash, cu CHR ''}'']
      (replace_unit (cu CHR ''{'') [backslash, cu CHR ''{'']
      (replace_unit backslash [backslash, backslash] s))))))
   \<and> (\<forall>c. escape_unit c = (if c \<in> bibtex_special then [backslash, c] else [c]))
   \<and> unescape (escapeBibTeX s) = s
   \<and> (set s \<inter> bibtex_special = {} \<longrightarrow>
        escapeBibTeX s = s \<and> escapeBibTeX (escapeBibTeX s) = escapeBibTeX s)"
  using escapeBibTeX_single_pass [of s] unescape_escapeBibTeX [of s] escapeBibTeX_safe [of s]
  by (simp add: escapeBibTeX_def [symmetric] escape_unit_def)

theorem escapeBibTeX_escapes_each_special_once_witness:
  "set (js ''plain title'') \<inter> bibtex_special = {}
   \<and> escapeBibTeX (js ''plain title'') = js ''plain title''
   \<and> escapeBibTeX (escapeBibTeX (js ''plain title'')) = escapeBibTeX (js ''plain title'')"
  using escapeBibTeX_escapes_each_special_once [of "js ''plain title''"]
  by (simp add: js_def bibtex_special_def backslash_def cu_def)

text \<open>
  Safe input is input without any of the seven characters: on a text that holds one of
  them, escaping the escaped text escapes the backslashes again.
\<close>

lemma escapeBibTeX_twice_on_special:
  "escapeBibTeX (js ''{'') = [backslash, cu CHR ''{'']
   \<and> escapeBibTeX (escapeBibTeX (js ''{'')) = [backslash, backslash, backslash, cu CHR ''{'']"
  by (simp add: escapeBibTeX_Cons escapeBibTeX_Nil escape_unit_def bibtex_special_def js_def
      backslash_def cu_def)

section \<open>FormatConverter: properties\<close>

lemma run_ge_iff:
  "n \<le> length (takeWhile P s) \<longleftrightarrow> n \<le> length s \<and> list_all P (take n s)"
proof
  assume n: "n \<le> length (takeWhile P s)"
  have "length (takeWhile P s) \<le> length s" by (rule length_takeWhile_le)
  with n show "n \<le> length s \<and> list_all P (take n s)" by (simp add: take_run_all)
next
  assume a: "n \<le> length s \<and> list_all P (take n s)"
  then have "length (take n s) \<le> length (takeWhile P (take n s @ drop n s))"
    by (intro run_length_append) simp
  with a show "n \<le> length (takeWhile P s)" by simp
qed

lemma first_match_year:
  "first_match year_pattern s =
     (if 4 \<le> length s \<and> list_all is_digit (take 4 s) then Some [take 4 s] else None)"
  by (simp add: first_match_def year_pattern_def run_ge_iff atom_ok_Digit)

lemma exec_year: "exec year_pattern s = map_option (\<lambda>y. [y]) (first_four_digits s)"
proof (induction s)
  case Nil
  show ?case by (simp add: first_match_year)
next
  case (Cons c s)
  show ?case unfolding exec.simps first_match_year using Cons by simp
qed

lemma first_four_digits_iff:
  "first_four_digits s \<noteq> None \<longleftrightarrow>
     (\<exists>pre d post. s = pre @ d @ post \<and> length d = 4 \<and> list_all is_digit d)"
proof
  assume "first_four_digits s \<noteq> None"
  then obtain y where "exec year_pattern s = Some [y]" by (auto simp: exec_year)
  from exec_SomeD [OF this] obtain pre post where
    "list_all2 piece_lang year_pattern [y]" "s = pre @ concat [y] @ post" by blast
  then have "s = pre @ y @ post \<and> length y = 4 \<and> list_all is_digit y"
    by (simp add: year_pattern_def atom_ok_Digit)
  then show "\<exists>pre d post. s = pre @ d @ post \<and> length d = 4 \<and> list_all is_digit d" by blast
next
  assume "\<exists>pre d post. s = pre @ d @ post \<and> length d = 4 \<and> list_all is_digit d"
  then obtain pre d post where s: "s = pre @ concat [d] @ post"
    and d: "list_all2 piece_lang year_pattern [d]"
    by (auto simp: year_pattern_def atom_ok_Digit)
  have "exec year_pattern s \<noteq> None"
  proof
    assume "exec year_pattern s = None"
    from exec_NoneD [OF this d] s show False by blast
  qed
  then show "first_four_digits s \<noteq> None" by (simp add: exec_year)
qed

lemma foldl_push: "foldl (\<lambda>lines x. lines @ [f x]) acc xs = acc @ map f xs"
  by (induction xs arbitrary: acc) simp_all

lemma articleToRIS_lines: "articleToRIS a = join [CR, LF] (ris_block_lines a)"
proof -
  have y: "(if year a \<noteq> [] then
             (case exec year_pattern (year a) of
                Some yearMatch \<Rightarrow> ls @ [js ''PY  - '' @ yearMatch ! 0]
              | None \<Rightarrow> ls)
           else ls)
      = ls @ (case first_four_digits (year a) of Some y \<Rightarrow> [js ''PY  - '' @ y] | None \<Rightarrow> [])"
    for ls
    by (cases "year a = []") (simp_all add: exec_year split: option.splits)
  show ?thesis
    unfolding articleToRIS_def ris_block_lines_def Let_def y foldl_push
    by simp
qed

lemma join_last:
  "xs \<noteq> [] \<Longrightarrow> last xs \<noteq> [] \<Longrightarrow> join sep xs \<noteq> [] \<and> last (join sep xs) = last (last xs)"
  by (induction sep xs rule: join.induct) auto

lemma articleToRIS_last: "articleToRIS a \<noteq> [] \<and> last (articleToRIS a) = 32"
proof -
  have "ris_block_lines a \<noteq> []" and "last (ris_block_lines a) = js ''ER  - ''"
    by (simp_all add: ris_block_lines_def)
  with join_last [of "ris_block_lines a" "[CR, LF]"] show ?thesis
    by (simp add: articleToRIS_lines js_def)
qed

lemma toRIS_one_trailing_newline:
  "suffix [LF] (toRIS arts) \<and> \<not> suffix [LF, LF] (toRIS arts)"
proof (cases "arts = []")
  case True
  then show ?thesis by (simp add: toRIS_def suffix_def)
next
  case False
  let ?rs = "map articleToRIS arts"
  have "?rs \<noteq> []" "last ?rs \<noteq> []" "last (last ?rs) = 32"
    using False articleToRIS_last by (simp_all add: last_map)
  with join_last [of ?rs "[LF, LF]"] have j: "join [LF, LF] ?rs \<noteq> []" "last (join [LF, LF] ?rs) = 32"
    by simp_all
  have "\<not> suffix [LF, LF] (join [LF, LF] ?rs @ [LF])"
  proof
    assume "suffix [LF, LF] (join [LF, LF] ?rs @ [LF])"
    then obtain zs where "join [LF, LF] ?rs @ [LF] = zs @ [LF, LF]" by (auto simp: suffix_def)
    then have "join [LF, LF] ?rs = zs @ [LF]" by simp
    with j(2) show False by (simp add: LF_def)
  qed
  then show ?thesis by (simp add: toRIS_def suffix_def)
qed

lemma PY_line_iff:
  "(\<exists>l\<in>set (ris_block_lines a). take 6 l = js ''PY  - '') \<longleftrightarrow> first_four_digits (year a) \<noteq> None"
  by (cases "first_four_digits (year a)") (auto simp: ris_block_lines_def js_def)

lemma toRIS_blocks: "toRIS arts = join [LF, LF] (ris_records arts) @ [LF]"
  by (simp add: toRIS_def ris_records_def)

lemma toBibTeX_entries: "toBibTeX arts = join [LF, LF] (bibtex_entries arts) @ [LF]"
  by (simp add: toBibTeX_def bibtex_entries_def)

lemma bibtex_entries_insert:
  "bibtex_entries (pre @ [a] @ post) =
     bibtex_entries pre @ (if title a = [] then [] else [articleToBibTeX a]) @ bibtex_entries post"
  by (simp add: bibtex_entries_def)

lemma toBibTeX_untitled:
  "title a = [] \<Longrightarrow> toBibTeX (pre @ [a] @ post) = toBibTeX (pre @ post)"
  by (simp add: toBibTeX_def)

text \<open>
  Claim C4. For every sequence of records the RIS document is the blocks of the records,
  one per record and in their order, joined by two line feeds (one blank line between
  blocks) and followed by one line feed, so that it ends with exactly one line feed. A
  block is its lines joined by CR LF, and its lines are, in this order: TY; TI (when the
  title is not empty); one AU per author, in the authors' order; PY; T2 and JF (when the
  journal is not empty); N1 (when there is a note); ER. The PY line is there exactly when
  the year text holds four consecutive decimal digits, and it carries the first four.
\<close>

theorem toRIS_document_layout:
  "toRIS arts = join [LF, LF] (map articleToRIS arts) @ [LF]
   \<and> length (ris_records arts) = length arts
   \<and> articleToRIS a = join [CR, LF]
       ([js ''TY  - '' @ lookup_or RIS_TYPE_MAP (documentType a) (js ''JOUR'')]
        @ (if title a = [] then [] else [js ''TI  - '' @ title a])
        @ map (\<lambda>author. js ''AU  - '' @ author) (authors a)
        @ (case first_four_digits (year a) of Some y \<Rightarrow> [js ''PY  - '' @ y] | None \<Rightarrow> [])
        @ (if journal a = [] then [] else [js ''T2  - '' @ journal a, js ''JF  - '' @ journal a])
        @ (if buildNotesArray a = [] then []
           else [js ''N1  - '' @ join (js ''; '') (buildNotesArray a)])
        @ [js ''ER  - ''])
   \<and> articleToRIS a = join [CR, LF] (ris_block_lines a)
   \<and> ((\<exists>l\<in>set (ris_block_lines a). take 6 l = js ''PY  - '') \<longleftrightarrow>
        (\<exists>pre d post. year a = pre @ d @ post \<and> length d = 4 \<and> list_all is_digit d))
   \<and> suffix [LF] (toRIS arts) \<and> \<not> suffix [LF, LF] (toRIS arts)"
proof -
  have 1: "toRIS arts = join [LF, LF] (map articleToRIS arts) @ [LF]"
    by (simp add: toRIS_def)
  have 2: "length (ris_records arts) = length arts"
    by (simp add: ris_records_def)
  have 3: "articleToRIS a = join [CR, LF] (ris_block_lines a)"
    by (rule articleToRIS_lines)
  have 4: "(\<exists>l\<in>set (ris_block_lines a). take 6 l = js ''PY  - '') \<longleftrightarrow>
        (\<exists>pre d post. year a = pre @ d @ post \<and> length d = 4 \<and> list_all is_digit d)"
    unfolding PY_line_iff first_four_digits_iff ..
  note 5 = toRIS_one_trailing_newline [of arts]
  show ?thesis
    using 1 2 3 [unfolded ris_block_lines_def] 3 4 5 by blast
qed

text \<open>
  Claim C8. For every sequence of records, the BibTeX converter makes its entries from
  the records whose title is not empty, in their order: a record with an empty title
  contributes no entry, and the document is the one the sequence without that record
  gives. The RIS converter makes one block for each record of the sequence, a record with
  an empty title included: its block is not empty.
\<close>

theorem toBibTeX_skips_untitled_toRIS_keeps_all:
  "toBibTeX arts = join [LF, LF] (bibtex_entries arts) @ [LF]
   \<and> bibtex_entries arts = map articleToBibTeX (filter (\<lambda>a. title a \<noteq> []) arts)
   \<and> bibtex_entries (pre @ [a] @ post) =
       bibtex_entries pre @ (if title a = [] then [] else [articleToBibTeX a]) @ bibtex_entries post
   \<and> (title a = [] \<longrightarrow> toBibTeX (pre @ [a] @ post) = toBibTeX (pre @ post))
   \<and> toRIS arts = join [LF, LF] (ris_records arts) @ [LF]
   \<and> length (ris_records arts) = length arts
   \<and> ris_records (pre @ [a] @ post) = ris_records pre @ [articleToRIS a] @ ris_records post
   \<and> articleToRIS a \<noteq> []"
  using toBibTeX_entries [of arts] bibtex_entries_insert [of pre a post]
    toBibTeX_untitled [of a pre post] toRIS_blocks [of arts] articleToRIS_last [of a]
  by (simp add: bibtex_entries_def ris_records_def)

theorem toBibTeX_skips_untitled_toRIS_keeps_all_witness:
  "title \<lparr>id' = js ''9'', title = [], authors = [], journal = [], year = [],
      documentType = js ''Artigo'', isOpenAccess = False, isPeerReviewed = False\<rparr> = []
   \<and> toBibTeX ([] @
        [\<lparr>id' = js ''9'', title = [], authors = [], journal = [], year = [],
          documentType = js ''Artigo'', isOpenAccess = False, isPeerReviewed = False\<rparr>] @ [])
     = toBibTeX ([] @ [])
   \<and> toBibTeX [] = [LF]"
  using toBibTeX_skips_untitled_toRIS_keeps_all [of "[]" "[]"
      "\<lparr>id' = js ''9'', title = [], authors = [], journal = [], year = [],
        documentType = js ''Artigo'', isOpenAccess = False, isPeerReviewed = False\<rparr>" "[]"]
  by (simp add: bibtex_entries_def)

section \<open>The checkpoint read back\<close>

lemma foldl_Set_add_json_distinct:
  "distinct (acc @ xs) \<Longrightarrow> foldl (\<lambda>set x. Set_add_json x set) acc xs = acc @ xs"
proof (induction xs arbitrary: acc)
  case Nil
  show ?case by simp
next
  case (Cons x xs)
  from Cons.prems have "Set_add_json x acc = acc @ [x]" by (simp add: Set_add_json_def)
  moreover from Cons.prems have "distinct ((acc @ [x]) @ xs)" by simp
  ultimately show ?case using Cons.IH [of "acc @ [x]"] by simp
qed

lemma new_Set_pages:
  "distinct pages \<Longrightarrow> new_Set (Some (JArr (map JNum pages))) = Some (map JNum pages)"
  using foldl_Set_add_json_distinct [of "[]" "map JNum pages"]
  by (simp add: new_Set_def distinct_map inj_on_def)

lemma get_property_serialize:
  "get_property (serialize st) (js ''processedPages'') = Some (JArr (map JNum (processedPages st)))"
  "get_property (serialize st) (js ''startTime'') = Some (JStr (startTime st))"
  by (simp_all add: get_property_def serialize_def js_def)

lemma spread_serialize:
  "filter (\<lambda>(k, _). k \<noteq> js ''processedPages'' \<and> k \<noteq> js ''startTime'')
     (own_properties (serialize st)) = spread (loaded_from st)"
  by (simp add: own_properties_def serialize_def loaded_from_def js_def)

lemma load_serialize:
  assumes "distinct (processedPages st)" and "storage sys = Some (Text_json (serialize st))"
  shows "load sys = (Some (loaded_from st), sys)"
proof -
  have "serialize st \<noteq> JNull" by (simp add: serialize_def)
  then show ?thesis
    by (simp add: load_def assms(2) get_property_serialize new_Set_pages [OF assms(1)]
        spread_serialize) (simp add: loaded_from_def)
qed

lemma those_all_map_Some: "those_all (map (\<lambda>x. Some (f x)) xs) = Some (map f xs)"
  by (induction xs) simp_all

lemma those_all_json_string: "those_all (map (json_string \<circ> JStr) xs) = Some xs"
  by (induction xs) (simp_all add: json_string_def)

lemma those_all_json_int: "those_all (map (json_int \<circ> JNum) xs) = Some xs"
  by (induction xs) (simp_all add: json_int_def)

lemma article_of_json_article_json: "article_of_json (article_json a) = Some a"
proof -
  have "article_of_json (JObj [(js ''id'', JStr (id' a)),
           (js ''title'', JStr (title a)),
           (js ''authors'', JArr (map JStr (authors a))),
           (js ''journal'', JStr (journal a)),
           (js ''year'', JStr (year a)),
           (js ''documentType'', JStr (documentType a)),
           (js ''isOpenAccess'', JBool (isOpenAccess a)),
           (js ''isPeerReviewed'', JBool (isPeerReviewed a))]) = Some a"
    unfolding article_of_json_def by (simp add: those_all_json_string article_json_def)
  then show ?thesis by (simp add: article_json_def)
qed

lemma those_all_article_of_json:
  "those_all (map (article_of_json \<circ> article_json) xs) = Some xs"
  by (induction xs) (simp_all add: article_of_json_article_json)

lemma as_ExportState_loaded_from:
  "is_iso_timestamp (startTime st) \<Longrightarrow> as_ExportState (loaded_from st) = Some st"
proof -
  assume iso: "is_iso_timestamp (startTime st)"
  have "as_ExportState \<lparr>spread = [(js ''format'', JStr (format st)),
                (js ''articles'', JArr (map article_json (articles st))),
                (js ''totalArticles'', JNum (totalArticles st))],
      loaded_processedPages = map JNum (processedPages st),
      startTime_from = Some (JStr (startTime st))\<rparr> = Some st"
    unfolding as_ExportState_def
    using iso by (simp add: those_all_json_int those_all_article_of_json loaded_from_def)
  then show ?thesis by (simp add: loaded_from_def)
qed

lemma as_ExportState_SomeD:
  "as_ExportState l = Some st \<Longrightarrow> l = loaded_from st \<and> is_iso_timestamp (startTime st)"
  unfolding as_ExportState_def
  by (auto split: prod.splits list.splits json.splits option.splits if_splits simp: Let_def)

section \<open>ExportController: what each step changes\<close>

lemma state_updateStatus [simp]: "state (updateStatus m sys) = state sys"
  by (simp add: updateStatus_def)

lemma storage_updateStatus [simp]: "storage (updateStatus m sys) = storage sys"
  by (simp add: updateStatus_def)

lemma downloads_updateStatus [simp]: "downloads (updateStatus m sys) = downloads sys"
  by (simp add: updateStatus_def)

lemma navigated_updateStatus [simp]: "navigated (updateStatus m sys) = navigated sys"
  by (simp add: updateStatus_def)

lemma processingTimeout_updateStatus [simp]:
  "processingTimeout (updateStatus m sys) = processingTimeout sys"
  by (simp add: updateStatus_def)

lemma overlay_updateStatus [simp]: "overlay (updateStatus m sys) = overlay sys"
  by (simp add: updateStatus_def)

lemma statuses_updateStatus:
  "statuses (updateStatus m sys) = (if overlay sys then statuses sys @ [m] else statuses sys)"
  by (simp add: updateStatus_def)

lemma handleError_fields:
  "state (handleError e sys) = state sys"
  "storage (handleError e sys) = None"
  "downloads (handleError e sys) = downloads sys"
  "navigated (handleError e sys) = navigated sys"
  "processingTimeout (handleError e sys) = False"
  "statuses (handleError e sys) =
     (if overlay sys then statuses sys @ [[10060] @ js '' Export failed: '' @ e] else statuses sys)"
  by (simp_all add: handleError_def clear_def clearProcessingTimeout_def Let_def
      statuses_updateStatus)

lemma completeExport_fields:
  "state (completeExport pg st sys) = state sys"
  "storage (completeExport pg st sys) = None"
  "navigated (completeExport pg st sys) = navigated sys"
  "processingTimeout (completeExport pg st sys) = False"
  "downloads (completeExport pg st sys) =
     (if articles st = [] then downloads sys
      else downloads sys @ [(generateExportContent st, generateFilename pg (format st))])"
  by (simp_all add: completeExport_def handleError_fields clear_def clearProcessingTimeout_def
      Let_def)

lemma completeExport_statuses:
  "overlay sys \<Longrightarrow> statuses (completeExport pg st sys) =
     (if articles st = [] then
        statuses sys @ [[10060] @ js '' Export failed: '' @ js ''No articles found to export'']
      else statuses sys @ [js ''Generating file...'',
        [9989] @ js '' Successfully exported '' @ show_nat (length (articles st))
          @ js '' articles!''])"
  by (simp add: completeExport_def handleError_fields clear_def clearProcessingTimeout_def
      Let_def statuses_updateStatus)

lemma navigateToNextPage_fields:
  "state (navigateToNextPage pg sys) = state sys"
  "storage (navigateToNextPage pg sys) = storage sys"
  "downloads (navigateToNextPage pg sys) = downloads sys"
  "navigated (navigateToNextPage pg sys) = Some (getCurrentPage (page_location pg) + 1)"
  by (simp_all add: navigateToNextPage_def Let_def)

lemma save_fields:
  "state (save pg st sys) = state sys"
  "downloads (save pg st sys) = downloads sys"
  "navigated (save pg st sys) = navigated sys"
  "overlay (save pg st sys) = overlay sys"
  "storage (save pg st sys) =
     (if quota_exceeded pg then storage sys else Some (Text_json (serialize st)))"
  by (simp_all add: save_def)

lemma processCurrentPage_Some:
  "state sys = Some st \<Longrightarrow>
   processCurrentPage pg sys =
     (if shouldContinueToNextPage pg (harvest pg st) (getCurrentPage (page_location pg))
      then navigateToNextPage pg (after_harvest pg st sys)
      else completeExport pg (harvest pg st) (after_harvest pg st sys))"
  by (simp add: processCurrentPage_def after_harvest_def Let_def)

lemma after_harvest_fields:
  "state (after_harvest pg st sys) = Some (harvest pg st)"
  "downloads (after_harvest pg st sys) = downloads sys"
  "navigated (after_harvest pg st sys) = navigated sys"
  "overlay (after_harvest pg st sys) = overlay sys"
  "storage (after_harvest pg st sys) =
     (if extractFromPage pg \<noteq> [] \<and> \<not> quota_exceeded pg
      then Some (Text_json (serialize (harvest pg st))) else storage sys)"
  by (simp_all add: after_harvest_def updateProgress_def setProcessingTimeout_def
      clearProcessingTimeout_def save_fields Let_def)

lemma state_processCurrentPage:
  "state sys = Some st \<Longrightarrow> state (processCurrentPage pg sys) = Some (harvest pg st)"
  by (simp add: processCurrentPage_Some completeExport_fields navigateToNextPage_fields
      after_harvest_fields)

lemma harvest_fields:
  "articles (harvest pg st) = articles st @ extractFromPage pg"
  "processedPages (harvest pg st) =
     (if extractFromPage pg = [] then processedPages st
      else Set_add (getCurrentPage (page_location pg)) (processedPages st))"
  "format (harvest pg st) = format st"
  "startTime (harvest pg st) = startTime st"
  "totalArticles (harvest pg st) = totalArticles st"
  by (simp_all add: harvest_def Let_def)



lemma Set_add_member: "x \<in> set xs \<Longrightarrow> Set_add x xs = xs"
  by (simp add: Set_add_def)





section \<open>Resuming from the checkpoint, page after page\<close>


lemma load_Some_unchanged: "load sys = (Some l, sys') \<Longrightarrow> sys' = sys"
  by (auto simp: load_def split: option.splits stored.splits if_splits)



lemma checkpoint_of_SomeD:
  "checkpoint_of sys = Some st \<Longrightarrow>
   load sys = (Some (loaded_from st), sys) \<and> is_iso_timestamp (startTime st)"
proof -
  assume c: "checkpoint_of sys = Some st"
  then obtain l sys' where l: "load sys = (Some l, sys')" and a: "as_ExportState l = Some st"
    by (cases "load sys") (auto simp: checkpoint_of_def split: option.splits)
  from load_Some_unchanged [OF l] as_ExportState_SomeD [OF a] l show ?thesis by simp
qed

lemma checkpoint_of_serialize:
  assumes "distinct (processedPages st)" and "is_iso_timestamp (startTime st)"
    and "storage sys = Some (Text_json (serialize st))"
  shows "checkpoint_of sys = Some st"
  using load_serialize [OF assms(1,3)] as_ExportState_loaded_from [OF assms(2)]
  by (simp add: checkpoint_of_def)

lemma resumeExport_checkpoint:
  assumes "checkpoint_of sys = Some st"
  shows "resumeExport pg sys =
    Some (processCurrentPage pg (show_overlay (js ''Resuming export...'') (sys\<lparr>state := Some st\<rparr>)))"
  using checkpoint_of_SomeD [OF assms] as_ExportState_loaded_from [of st]
  by (simp add: resumeExport_def)



lemma state_show_overlay [simp]: "state (show_overlay m sys) = state sys"
  by (simp add: show_overlay_def)

lemma storage_show_overlay [simp]: "storage (show_overlay m sys) = storage sys"
  by (simp add: show_overlay_def)

lemma downloads_show_overlay [simp]: "downloads (show_overlay m sys) = downloads sys"
  by (simp add: show_overlay_def)

lemma navigated_show_overlay [simp]: "navigated (show_overlay m sys) = navigated sys"
  by (simp add: show_overlay_def)

lemma overlay_show_overlay [simp]: "overlay (show_overlay m sys)"
  by (simp add: show_overlay_def)



lemma new_instance_fields [simp]:
  "storage (new_instance sys) = storage sys"
  "state (new_instance sys) = None"
  "downloads (new_instance sys) = downloads sys"
  by (simp_all add: new_instance_def)




section \<open>The invariant of a run and the cases of load\<close>







lemma resumeExport_state:
  assumes "checkpoint_of sys = Some st"
  shows "\<exists>sys'. resumeExport pg sys = Some sys' \<and> state sys' = Some (harvest pg st)"
  using resumeExport_checkpoint [OF assms, of pg]
  by (simp add: state_processCurrentPage)

lemma state_startExport:
  "state (startExport pg fmt sys) =
     Some (harvest pg \<lparr>format = fmt, articles = [], processedPages = [],
       totalArticles = getTotalArticlesEstimate (page_document pg), startTime = clock_init pg\<rparr>)"
  by (simp add: startExport_def state_processCurrentPage initializeState_def)


lemma load_cases:
  "load sys =
     (if storage sys = None \<or> storage sys = Some Text_empty then (None, sys)
      else if storage sys = Some Text_malformed then (None, clear sys)
      else (None, clear sys))
   \<or> fst (load sys) \<noteq> None \<and> snd (load sys) = sys"
  by (auto simp: load_def split: option.splits stored.splits)

lemma load_json:
  "storage sys = Some (Text_json parsed) \<Longrightarrow>
     (if parsed = JNull \<or> new_Set (get_property parsed (js ''processedPages'')) = None
         \<or> (\<exists>v. get_property parsed (js ''startTime'') = Some v \<and> Date_throws v)
      then load sys = (None, clear sys)
      else fst (load sys) \<noteq> None \<and> snd (load sys) = sys)"
  by (auto simp: load_def split: option.splits)

lemma load_absent:
  "storage sys = None \<or> storage sys = Some Text_empty \<Longrightarrow> load sys = (None, sys)"
  by (auto simp: load_def)

lemma load_malformed: "storage sys = Some Text_malformed \<Longrightarrow> load sys = (None, clear sys)"
  by (simp add: load_def)

lemma load_None_cleared:
  "fst (load sys) = None \<Longrightarrow> storage sys \<noteq> Some Text_empty \<Longrightarrow> storage (snd (load sys)) = None"
  by (auto simp: load_def clear_def split: option.splits stored.splits if_splits)

section \<open>Facts about the examples\<close>

lemma iso_example: "is_iso_timestamp (js ''2024-02-29T10:11:12.345Z'')"
  by (simp add: is_iso_timestamp_def js_def cu_def is_digit_def four_digits_def two_digits_def
      days_in_month_def)

lemma first_page_index: "getCurrentPage (page_location first_page) = 1"
  by (simp add: first_page_def getCurrentPage_def parseInt_def ToString_nullable_def js_def cu_def
      is_space_def is_digit_def digits_value_def digit_value_def)

lemma last_page_index: "getCurrentPage (page_location last_page) = 2"
  by (simp add: last_page_def getCurrentPage_def parseInt_def ToString_nullable_def js_def cu_def
      is_space_def is_digit_def digits_value_def digit_value_def)

lemma example_checkpoint_fields:
  "distinct (processedPages example_checkpoint)"
  "is_iso_timestamp (startTime example_checkpoint)"
  "processedPages example_checkpoint = [1]"
  "articles example_checkpoint = [example_article]"
  by (simp_all add: example_checkpoint_def iso_example)

lemma example_checkpoint_stored:
  "checkpoint_of (untouched\<lparr>storage := Some (Text_json (serialize example_checkpoint))\<rparr>)
     = Some example_checkpoint"
  by (rule checkpoint_of_serialize) (simp_all add: example_checkpoint_fields)

lemma hd_join: "x \<noteq> [] \<Longrightarrow> hd (join sep (x # xs)) = hd x"
  by (cases xs) simp_all

lemma join_Cons_nonempty: "x \<noteq> [] \<Longrightarrow> join sep (x # xs) \<noteq> []"
  by (cases xs) simp_all

lemma hd_toRIS: "hd (toRIS (a # arts)) = cu CHR ''T''"
proof -
  have "articleToRIS a \<noteq> []" using articleToRIS_last [of a] by simp
  moreover have "hd (articleToRIS a) = cu CHR ''T''"
    unfolding articleToRIS_lines by (simp add: ris_block_lines_def hd_join js_def cu_def)
  ultimately show ?thesis by (simp add: toRIS_def hd_join hd_append join_Cons_nonempty)
qed

lemma articleToBibTeX_hd: "articleToBibTeX a \<noteq> [] \<and> hd (articleToBibTeX a) = cu CHR ''@''"
proof -
  have "\<exists>l ls. articleToBibTeX a = join [LF] ((js ''@'' @ l) # ls)"
    unfolding articleToBibTeX_def Let_def by (simp del: join.simps) blast
  then obtain l ls where "articleToBibTeX a = join [LF] ((js ''@'' @ l) # ls)" by blast
  then show ?thesis by (cases ls) (simp_all add: js_def cu_def)
qed

lemma hd_toBibTeX: "title a \<noteq> [] \<Longrightarrow> hd (toBibTeX (a # arts)) = cu CHR ''@''"
  using articleToBibTeX_hd [of a] by (simp add: toBibTeX_def hd_join hd_append join_Cons_nonempty)

lemma downloads_startExport_last_page:
  assumes "extractFromPage pg \<noteq> []" and "\<not> truthy (hasNextPage (page_document pg))"
  shows "downloads (startExport pg fmt sys) =
    downloads sys @ [(if fmt = js ''ris'' then toRIS (extractFromPage pg)
                      else toBibTeX (extractFromPage pg), generateFilename pg fmt)]"
proof -
  let ?st = "\<lparr>format = fmt, articles = [], processedPages = [],
       totalArticles = getTotalArticlesEstimate (page_document pg), startTime = clock_init pg\<rparr>"
  let ?s = "show_overlay (js ''Starting export...'') (initializeState pg fmt (clearExistingExport sys))"
  have s: "state ?s = Some ?st" by (simp add: initializeState_def)
  have d: "downloads ?s = downloads sys"
    by (simp add: initializeState_def clearExistingExport_def clear_def clearProcessingTimeout_def)
  show ?thesis
    unfolding startExport_def processCurrentPage_Some [OF s]
    using assms d
    by (simp add: shouldContinueToNextPage_def completeExport_fields after_harvest_fields
        harvest_fields generateExportContent_def)
qed

section \<open>The checkpoint store and the finalizing step\<close>

text \<open>
  Claim C6, as the code has it. load returns absent and leaves the slot as it is when
  the slot is empty or holds the empty text. It returns absent and clears the slot when
  \<^verbatim>\<open>JSON.parse\<close> throws on the text, and, for a text that parses, exactly when the
  parsed value is \<^verbatim>\<open>null\<close>, its \<^verbatim>\<open>processedPages\<close> is not iterable, or its
  \<^verbatim>\<open>startTime\<close> cannot be converted to a primitive. In every other case, also when
  fields are missing or of another type, it returns an object and leaves the slot as it
  is: no field is validated. The checkpoint that save wrote for a state is read back as
  the checkpoint of that state.
\<close>

theorem load_absent_or_unvalidated:
  "(storage sys = None \<or> storage sys = Some Text_empty \<longrightarrow> load sys = (None, sys))
   \<and> (storage sys = Some Text_malformed \<longrightarrow> load sys = (None, clear sys))
   \<and> (storage sys = Some (Text_json parsed) \<longrightarrow>
        (if parsed = JNull \<or> new_Set (get_property parsed (js ''processedPages'')) = None
            \<or> (\<exists>v. get_property parsed (js ''startTime'') = Some v \<and> Date_throws v)
         then load sys = (None, clear sys)
         else fst (load sys) \<noteq> None \<and> snd (load sys) = sys))
   \<and> (fst (load sys) = None \<and> storage sys \<noteq> Some Text_empty \<longrightarrow>
        storage (snd (load sys)) = None)
   \<and> storage (clear sys) = None
   \<and> (storage sys = Some (Text_json (serialize st)) \<and> distinct (processedPages st) \<longrightarrow>
        load sys = (Some (loaded_from st), sys))"
  using load_absent [of sys] load_malformed [of sys] load_json [of sys parsed]
    load_None_cleared [of sys] load_serialize [of st sys]
  by (simp add: clear_def)

theorem load_absent_or_unvalidated_witness:
  "load untouched = (None, untouched)
   \<and> load (untouched\<lparr>storage := Some Text_malformed\<rparr>) = (None, untouched)
   \<and> load (untouched\<lparr>storage := Some (Text_json (JObj [(js ''processedPages'', JNum 5)]))\<rparr>)
       = (None, untouched)
   \<and> load (untouched\<lparr>storage := Some (Text_json (serialize example_checkpoint))\<rparr>)
       = (Some (loaded_from example_checkpoint),
          untouched\<lparr>storage := Some (Text_json (serialize example_checkpoint))\<rparr>)"
  using load_absent_or_unvalidated [of untouched JNull example_checkpoint]
    load_absent_or_unvalidated [of "untouched\<lparr>storage := Some Text_malformed\<rparr>" JNull
      example_checkpoint]
    load_absent_or_unvalidated [of
      "untouched\<lparr>storage := Some (Text_json (JObj [(js ''processedPages'', JNum 5)]))\<rparr>"
      "JObj [(js ''processedPages'', JNum 5)]" example_checkpoint]
    load_absent_or_unvalidated [of
      "untouched\<lparr>storage := Some (Text_json (serialize example_checkpoint))\<rparr>"
      "serialize example_checkpoint" example_checkpoint]
  by (simp add: untouched_def clear_def example_checkpoint_fields new_Set_def get_property_def)

text \<open>
  The claim as the specification words it fails. A checkpoint whose \<^verbatim>\<open>articles\<close>
  field is the number 5, whose \<^verbatim>\<open>startTime\<close> is not a date, and which has no
  \<^verbatim>\<open>processedPages\<close> and no \<^verbatim>\<open>totalArticles\<close> is not the checkpoint of any
  ExportState; load returns an object for it all the same, and the slot keeps it.
\<close>

theorem load_unvalidated_counterexample:
  "load (untouched\<lparr>storage := Some (Text_json (JObj
       [(js ''format'', JStr (js ''ris'')), (js ''articles'', JNum 5),
        (js ''startTime'', JStr (js ''yesterday''))]))\<rparr>)
     = (Some \<lparr>spread = [(js ''format'', JStr (js ''ris'')), (js ''articles'', JNum 5)],
              loaded_processedPages = [],
              startTime_from = Some (JStr (js ''yesterday''))\<rparr>,
        untouched\<lparr>storage := Some (Text_json (JObj
          [(js ''format'', JStr (js ''ris'')), (js ''articles'', JNum 5),
           (js ''startTime'', JStr (js ''yesterday''))]))\<rparr>)
   \<and> as_ExportState \<lparr>spread = [(js ''format'', JStr (js ''ris'')), (js ''articles'', JNum 5)],
         loaded_processedPages = [], startTime_from = Some (JStr (js ''yesterday''))\<rparr> = None"
  by (simp add: load_def untouched_def get_property_def new_Set_def own_properties_def
      as_ExportState_def js_def)

text \<open>
  Claim C7. In the finalizing step, with no records the controller fails with the error
  \<^verbatim>\<open>No articles found to export\<close>: the step is the error handler and nothing else,
  so no document is made and nothing is downloaded. With records, the document of the
  run's format and the generated file name are handed to the download, once, and the
  success message is shown. Both ends, and the error handler for any error, leave the
  checkpoint slot empty and the watchdog cleared. processCurrentPage takes this step
  when it does not navigate.
\<close>

theorem completeExport_fails_or_downloads_and_clears:
  "(articles st = [] \<longrightarrow>
      handleError (js ''No articles found to export'') (clearProcessingTimeout sys)
        = completeExport pg st sys
      \<and> downloads (completeExport pg st sys) = downloads sys
      \<and> (overlay sys \<longrightarrow> statuses (completeExport pg st sys)
            = statuses sys @ [[10060] @ js '' Export failed: '' @ js ''No articles found to export'']))
   \<and> (articles st \<noteq> [] \<longrightarrow>
      downloads (completeExport pg st sys)
        = downloads sys @ [(generateExportContent st, generateFilename pg (format st))]
      \<and> (overlay sys \<longrightarrow> statuses (completeExport pg st sys)
            = statuses sys @ [js ''Generating file...'',
                [9989] @ js '' Successfully exported '' @ show_nat (length (articles st))
                  @ js '' articles!'']))
   \<and> storage (completeExport pg st sys) = None
   \<and> \<not> processingTimeout (completeExport pg st sys)
   \<and> storage (handleError e sys) = None
   \<and> \<not> processingTimeout (handleError e sys)
   \<and> downloads (handleError e sys) = downloads sys
   \<and> (state sys = Some st
        \<and> \<not> shouldContinueToNextPage pg (harvest pg st) (getCurrentPage (page_location pg)) \<longrightarrow>
      completeExport pg (harvest pg st) (after_harvest pg st sys) = processCurrentPage pg sys
      \<and> storage (processCurrentPage pg sys) = None)"
  using completeExport_statuses [of sys pg st] processCurrentPage_Some [of sys st pg]
  by (simp add: completeExport_fields handleError_fields)
    (simp add: completeExport_def clearProcessingTimeout_def)

theorem completeExport_fails_or_downloads_and_clears_witness:
  "articles (example_checkpoint\<lparr>articles := []\<rparr>) = []
   \<and> downloads (completeExport last_page (example_checkpoint\<lparr>articles := []\<rparr>)
        (untouched\<lparr>overlay := True\<rparr>)) = []
   \<and> statuses (completeExport last_page (example_checkpoint\<lparr>articles := []\<rparr>)
        (untouched\<lparr>overlay := True\<rparr>))
       = [[10060] @ js '' Export failed: '' @ js ''No articles found to export'']
   \<and> articles example_checkpoint \<noteq> []
   \<and> downloads (completeExport last_page example_checkpoint (untouched\<lparr>overlay := True\<rparr>))
       = [(generateExportContent example_checkpoint,
           generateFilename last_page (format example_checkpoint))]
   \<and> storage (completeExport last_page example_checkpoint (untouched\<lparr>overlay := True\<rparr>)) = None
   \<and> state (untouched\<lparr>state := Some example_checkpoint\<rparr>) = Some example_checkpoint
   \<and> \<not> shouldContinueToNextPage last_page (harvest last_page example_checkpoint)
         (getCurrentPage (page_location last_page))
   \<and> storage (processCurrentPage last_page (untouched\<lparr>state := Some example_checkpoint\<rparr>)) = None"
proof -
  have "\<not> shouldContinueToNextPage last_page (harvest last_page example_checkpoint)
         (getCurrentPage (page_location last_page))"
    by (simp add: shouldContinueToNextPage_def last_page_def hasNextPage_def truthy_def)
  then show ?thesis
    using completeExport_fails_or_downloads_and_clears [where st = "example_checkpoint\<lparr>articles := []\<rparr>"
        and pg = last_page and sys = "untouched\<lparr>overlay := True\<rparr>" and e = "[]"]
      completeExport_fails_or_downloads_and_clears [where st = example_checkpoint
        and pg = last_page and sys = "untouched\<lparr>overlay := True\<rparr>" and e = "[]"]
      completeExport_fails_or_downloads_and_clears [where st = example_checkpoint
        and pg = last_page and sys = "untouched\<lparr>state := Some example_checkpoint\<rparr>" and e = "[]"]
    by (simp add: untouched_def example_checkpoint_fields)
qed

section \<open>Resuming on a visited page, and the control message\<close>

text \<open>
  Claim C1, as the code has it. Resuming from the checkpoint of a state on a page whose
  index is already among the visited pages leaves the visited pages as they are (the
  index is not added a second time), and appends the records the extractor finds on the
  page after the records of the checkpoint: the visited page is not skipped, and the
  records sequence is unchanged exactly when the extractor finds nothing on the page.
\<close>

theorem resume_on_visited_page_harvests_again:
  assumes "storage sys = Some (Text_json (serialize st))"
    and "distinct (processedPages st)" and "is_iso_timestamp (startTime st)"
    and "getCurrentPage (page_location pg) \<in> set (processedPages st)"
  shows "\<exists>sys' st'. resumeExport pg sys = Some sys' \<and> state sys' = Some st'
    \<and> processedPages st' = processedPages st
    \<and> articles st' = articles st @ extractFromPage pg
    \<and> (articles st' = articles st \<longleftrightarrow> extractFromPage pg = [])"
proof -
  from checkpoint_of_serialize [OF assms(2,3,1)] resumeExport_state
  obtain sys' where "resumeExport pg sys = Some sys'" "state sys' = Some (harvest pg st)"
    by blast
  moreover have "processedPages (harvest pg st) = processedPages st"
    using assms(4) by (simp add: harvest_fields Set_add_member)
  ultimately show ?thesis by (auto simp: harvest_fields)
qed

theorem resume_on_visited_page_harvests_again_witness:
  "storage (untouched\<lparr>storage := Some (Text_json (serialize example_checkpoint))\<rparr>)
     = Some (Text_json (serialize example_checkpoint))
   \<and> distinct (processedPages example_checkpoint)
   \<and> is_iso_timestamp (startTime example_checkpoint)
   \<and> getCurrentPage (page_location first_page) \<in> set (processedPages example_checkpoint)
   \<and> (\<exists>sys' st'. resumeExport first_page
         (untouched\<lparr>storage := Some (Text_json (serialize example_checkpoint))\<rparr>) = Some sys'
       \<and> state sys' = Some st'
       \<and> processedPages st' = [1]
       \<and> articles st' = [example_article, example_article])"
proof -
  have h: "storage (untouched\<lparr>storage := Some (Text_json (serialize example_checkpoint))\<rparr>)
     = Some (Text_json (serialize example_checkpoint))"
    "distinct (processedPages example_checkpoint)"
    "is_iso_timestamp (startTime example_checkpoint)"
    "getCurrentPage (page_location first_page) \<in> set (processedPages example_checkpoint)"
    by (simp_all add: example_checkpoint_fields first_page_index)
  have "extractFromPage first_page = [example_article]" by (simp add: first_page_def)
  with resume_on_visited_page_harvests_again [OF h] h show ?thesis
    by (auto simp: example_checkpoint_fields)
qed

text \<open>
  The claim as the specification words it fails: the checkpoint holds one record and
  the visited page 1; the script resumes on page 1, where the extractor finds that
  record; the state then holds the record twice.
\<close>

theorem resume_on_visited_page_counterexample:
  "getCurrentPage (page_location first_page) \<in> set (processedPages example_checkpoint)
   \<and> (\<exists>sys' st'. resumeExport first_page
         (untouched\<lparr>storage := Some (Text_json (serialize example_checkpoint))\<rparr>) = Some sys'
       \<and> state sys' = Some st'
       \<and> articles st' = [example_article, example_article]
       \<and> articles st' \<noteq> articles example_checkpoint)"
proof -
  have "extractFromPage first_page = [example_article]" by (simp add: first_page_def)
  with resumeExport_state [OF example_checkpoint_stored, of first_page] show ?thesis
    by (auto simp: harvest_fields example_checkpoint_fields first_page_index)
qed

text \<open>
  Claim C2, as the code has it. A message whose action is \<^verbatim>\<open>export\<close> and whose format
  is a text that is not empty starts the export with that format and is answered with
  \<^verbatim>\<open>{success: true}\<close>, whatever the format says; any other message, one without a
  format or with an empty one included, starts nothing and is not answered. The run
  keeps the format it was given, and the document is RIS when the format is
  \<^verbatim>\<open>ris\<close> and BibTeX for every other format: on a page that is the last one and
  shows articles, the export downloads that document at once.
\<close>

theorem onMessage_needs_format_and_ris_only_by_name:
  "(action msg = Some (js ''export'') \<and> msg_format msg = Some fmt \<and> fmt \<noteq> [] \<longrightarrow>
      onMessage pg msg sys = (startExport pg fmt sys, Some True))
   \<and> (action msg \<noteq> Some (js ''export'') \<or> msg_format msg = None \<or> msg_format msg = Some [] \<longrightarrow>
      onMessage pg msg sys = (sys, None))
   \<and> (\<exists>st. state (startExport pg fmt sys) = Some st \<and> format st = fmt)
   \<and> generateExportContent st
       = (if format st = js ''ris'' then toRIS (articles st) else toBibTeX (articles st))
   \<and> (extractFromPage pg \<noteq> [] \<and> \<not> truthy (hasNextPage (page_document pg)) \<longrightarrow>
      downloads (startExport pg fmt sys) =
        downloads sys @ [(if fmt = js ''ris'' then toRIS (extractFromPage pg)
                          else toBibTeX (extractFromPage pg), generateFilename pg fmt)])"
proof -
  have 1: "action msg = Some (js ''export'') \<and> msg_format msg = Some fmt \<and> fmt \<noteq> [] \<longrightarrow>
      onMessage pg msg sys = (startExport pg fmt sys, Some True)"
    by (simp add: onMessage_def)
  have 2: "action msg \<noteq> Some (js ''export'') \<or> msg_format msg = None \<or> msg_format msg = Some [] \<longrightarrow>
      onMessage pg msg sys = (sys, None)"
    by (auto simp: onMessage_def split: option.splits)
  have 3: "\<exists>st. state (startExport pg fmt sys) = Some st \<and> format st = fmt"
    by (simp add: state_startExport harvest_fields)
  have 4: "generateExportContent st
       = (if format st = js ''ris'' then toRIS (articles st) else toBibTeX (articles st))"
    by (simp add: generateExportContent_def)
  from 1 2 3 4 downloads_startExport_last_page [of pg fmt sys] show ?thesis by blast
qed

theorem onMessage_needs_format_and_ris_only_by_name_witness:
  "onMessage only_page \<lparr>action = Some (js ''export''), msg_format = Some (js ''ris'')\<rparr> untouched
     = (startExport only_page (js ''ris'') untouched, Some True)
   \<and> onMessage only_page \<lparr>action = Some (js ''export''), msg_format = None\<rparr> untouched
     = (untouched, None)
   \<and> extractFromPage only_page \<noteq> []
   \<and> \<not> truthy (hasNextPage (page_document only_page))
   \<and> downloads (startExport only_page (js ''ris'') untouched)
     = [(toRIS [example_article], generateFilename only_page (js ''ris''))]"
proof -
  have a: "extractFromPage only_page = [example_article]"
    "\<not> truthy (hasNextPage (page_document only_page))"
    "js ''ris'' \<noteq> []" "downloads untouched = []"
    by (simp_all add: only_page_def hasNextPage_def truthy_def js_def untouched_def)
  show ?thesis
    using
      onMessage_needs_format_and_ris_only_by_name [where
        msg = "\<lparr>action = Some (js ''export''), msg_format = Some (js ''ris'')\<rparr>"
        and fmt = "js ''ris''" and pg = only_page and sys = untouched and st = example_checkpoint]
      onMessage_needs_format_and_ris_only_by_name [where
        msg = "\<lparr>action = Some (js ''export''), msg_format = None\<rparr>"
        and fmt = "js ''ris''" and pg = only_page and sys = untouched and st = example_checkpoint]
      a
    by simp
qed

text \<open>
  The claim as the specification words it fails, in both of its cases. A message without
  a format starts nothing and gets no answer. A message with the format \<^verbatim>\<open>xml\<close> is
  answered, and the document that is downloaded is the BibTeX one, which is not the RIS
  one.
\<close>

theorem onMessage_default_format_counterexample:
  "onMessage only_page \<lparr>action = Some (js ''export''), msg_format = None\<rparr> untouched
     = (untouched, None)
   \<and> snd (onMessage only_page \<lparr>action = Some (js ''export''), msg_format = Some (js ''xml'')\<rparr>
        untouched) = Some True
   \<and> downloads (fst (onMessage only_page
        \<lparr>action = Some (js ''export''), msg_format = Some (js ''xml'')\<rparr> untouched))
     = [(toBibTeX [example_article], generateFilename only_page (js ''xml''))]
   \<and> toBibTeX [example_article] \<noteq> toRIS [example_article]"
proof -
  have a: "extractFromPage only_page \<noteq> []" "\<not> truthy (hasNextPage (page_document only_page))"
    by (simp_all add: only_page_def hasNextPage_def truthy_def)
  have "title example_article \<noteq> []" by (simp add: example_article_def js_def)
  from hd_toBibTeX [OF this, of "[]"] hd_toRIS [of example_article "[]"]
  have "toBibTeX [example_article] \<noteq> toRIS [example_article]"
    by (auto simp: cu_def)
  moreover have "js ''xml'' \<noteq> js ''ris''" "js ''xml'' \<noteq> []" by (simp_all add: js_def)
  moreover have "extractFromPage only_page = [example_article]" "downloads untouched = []"
    by (simp_all add: only_page_def untouched_def)
  ultimately show ?thesis
    using downloads_startExport_last_page [OF a, of "js ''xml''" untouched]
    by (simp add: onMessage_def)
qed

section \<open>The state over the lifetime of a run\<close>









end
